theory Spec2Isabelle
  imports Complex_Main "HOL-Library.Multiset"
begin

section \<open>Geometry shared by the tracker and the contour finder\<close>

text \<open>
  \<open>cv::Point2f\<close> is a pair of floats and \<open>cv::Point\<close> a pair of ints. Floats are
  modelled as reals: the properties below are about which branch the code takes and which
  calls it makes, not about rounding. \<open>cv::Rect\<close> is an integer rectangle.
\<close>

type_synonym point2f = "real \<times> real"
type_synonym point2i = "int \<times> int"

record rect =
  rect_x :: int
  rect_y :: int
  rect_width :: int
  rect_height :: int

text \<open>\<open>cv::norm\<close> of the difference of two points: the Euclidean distance.\<close>

definition cv_norm :: "point2f \<Rightarrow> point2f \<Rightarrow> real" where
  "cv_norm p q = sqrt ((fst p - fst q) * (fst p - fst q) + (snd p - snd q) * (snd p - snd q))"

text \<open>
  Passing a \<open>Point2f\<close> where a \<open>Point\<close> is expected converts each coordinate with
  \<open>cvRound\<close>: to the nearest integer, a tie going to the even one. The saturation at
  the ends of the \<open>int\<close> range is left out.
\<close>

definition cvRound :: "real \<Rightarrow> int" where
  "cvRound v =
     (let f = \<lfloor>v\<rfloor>; d = v - of_int f
      in if d < 1 / 2 then f else if 1 / 2 < d then f + 1 else if even f then f else f + 1)"

definition toPoint :: "point2f \<Rightarrow> point2i" where
  "toPoint p = (cvRound (fst p), cvRound (snd p))"

text \<open>\<open>cv::Rect::contains\<close>: the left and top edges are inside, the right and bottom are not.\<close>

definition contains :: "rect \<Rightarrow> point2i \<Rightarrow> bool" where
  "contains r p =
     (rect_x r \<le> fst p \<and> fst p < rect_x r + rect_width r \<and>
      rect_y r \<le> snd p \<and> snd p < rect_y r + rect_height r)"

section \<open>The motion filter\<close>

text \<open>
  Modelled from the spec: \<open>KalmanTracker\<close> (\<open>kalman_tracker.hpp\<close> and its
  implementation are not among the sources). The spec gives the operations \<open>new\<close>,
  \<open>predict\<close>, \<open>correct\<close>, \<open>correct_no_obs\<close>, \<open>got_update\<close>,
  \<open>no_update_this_frame\<close> and the read accessors. The numeric state of the filter is
  a function of the constructor's arguments and of the calls made on it since, so the
  model keeps exactly those: the seed point, the step and the noise magnitude it was
  built with, and the list of calls in order. What the linear algebra makes of that
  history (the latest prediction, and the lifetime, for which the spec names no
  operation that advances it) is read through the accessors of \<open>deps\<close> below.
\<close>

datatype kf_call = Predict | Correct point2f | CorrectNoObs

record kalman_filter =
  startPt :: point2f
  kf_dt :: real
  kf_accel :: real
  calls :: "kf_call list"

record kalman_tracker =
  kf :: kalman_filter
  numFramesWithoutUpdate :: int

definition KalmanTracker :: "point2f \<Rightarrow> real \<Rightarrow> real \<Rightarrow> kalman_tracker" where
  "KalmanTracker c step noise =
     \<lparr>kf = \<lparr>startPt = c, kf_dt = step, kf_accel = noise, calls = []\<rparr>,
      numFramesWithoutUpdate = 0\<rparr>"

definition called :: "kf_call \<Rightarrow> kalman_tracker \<Rightarrow> kalman_tracker" where
  "called c t = t\<lparr>kf := (kf t)\<lparr>calls := calls (kf t) @ [c]\<rparr>\<rparr>"

definition predict :: "kalman_tracker \<Rightarrow> kalman_tracker" where
  "predict t = called Predict t"

definition correct :: "point2f \<Rightarrow> kalman_tracker \<Rightarrow> kalman_tracker" where
  "correct p t = called (Correct p) t"

definition correct_no_obs :: "kalman_tracker \<Rightarrow> kalman_tracker" where
  "correct_no_obs t = called CorrectNoObs t"

definition gotUpdate :: "kalman_tracker \<Rightarrow> kalman_tracker" where
  "gotUpdate t = t\<lparr>numFramesWithoutUpdate := 0\<rparr>"

definition noUpdateThisFrame :: "kalman_tracker \<Rightarrow> kalman_tracker" where
  "noUpdateThisFrame t = t\<lparr>numFramesWithoutUpdate := numFramesWithoutUpdate t + 1\<rparr>"

text \<open>How often \<open>predict()\<close> has been called on a tracker.\<close>

definition predictions :: "kalman_tracker \<Rightarrow> nat" where
  "predictions t = length (filter (\<lambda>c. c = Predict) (calls (kf t)))"

section \<open>What the tracker is linked against\<close>

text \<open>
  \<open>update\<close> calls code that is not among the sources; it is taken as a parameter:
  \<^item> \<open>Solve\<close>: \<open>AssignmentProblemSolver::Solve\<close> of \<open>hungarian.hpp\<close>, from the cost
    matrix to the assignment array;
  \<^item> \<open>latestPrediction\<close> and \<open>getLifetime\<close>: the two accessors of \<open>KalmanTracker\<close>
    that read the filter's history;
  \<^item> \<open>defaultDt\<close> and \<open>defaultAccel\<close>: the values \<open>KalmanTracker\<close>'s constructor takes
    for the step and the noise magnitude when it is called with the point alone.
\<close>

record deps =
  Solve :: "real list list \<Rightarrow> int list"
  latestPrediction :: "kalman_filter \<Rightarrow> point2f"
  getLifetime :: "kalman_filter \<Rightarrow> int"
  defaultDt :: real
  defaultAccel :: real

definition KalmanTracker1 :: "deps \<Rightarrow> point2f \<Rightarrow> kalman_tracker" where
  "KalmanTracker1 d c = KalmanTracker c (defaultDt d) (defaultAccel d)"

section \<open>MultiObjectTracker\<close>

text \<open>
  The fields of \<open>MultiObjectTracker\<close> as its constructor sets them; \<open>frameSize\<close> is
  (width, height). The thresholds are \<open>long\<close> in the source and unbounded integers here.
\<close>

record multi_object_tracker =
  kalmanTrackers :: "kalman_tracker list"
  frameSize :: "int \<times> int"
  lifetimeThreshold :: int
  distanceThreshold :: real
  missedFramesThreshold :: int
  magnitudeOfAccelerationNoise :: real
  dt :: real

subsection \<open>A frame without detections (lines 34 to 52)\<close>

text \<open>
  The first loop walks the pool once: each tracker is told it got no update and is erased
  on the spot when its counter is past the threshold (the index is stepped back after an
  erase, so the next tracker is not skipped).
\<close>

fun age_all :: "int \<Rightarrow> kalman_tracker list \<Rightarrow> kalman_tracker list" where
  "age_all thr [] = []"
| "age_all thr (t # ts) =
     (let t' = noUpdateThisFrame t
      in if numFramesWithoutUpdate t' > thr then age_all thr ts else t' # age_all thr ts)"

text \<open>
  The second loop calls \<open>predict()\<close> on the trackers whose lifetime is past the
  threshold, and pushes what it returns (the new latest prediction).
\<close>

fun predict_visible ::
  "deps \<Rightarrow> int \<Rightarrow> kalman_tracker list \<Rightarrow> kalman_tracker list \<times> point2i list" where
  "predict_visible d lthr [] = ([], [])"
| "predict_visible d lthr (t # ts) =
     (let (ts', out) = predict_visible d lthr ts
      in if getLifetime d (kf t) > lthr
         then (predict t # ts', toPoint (latestPrediction d (kf (predict t))) # out)
         else (t # ts', out))"

subsection \<open>A frame with detections (lines 54 to 160)\<close>

text \<open>Lines 55 to 61: an empty pool gets one tracker per detection, with the configured step and noise.\<close>

definition seed_pool :: "multi_object_tracker \<Rightarrow> point2f list \<Rightarrow> kalman_tracker list" where
  "seed_pool m massCenters =
     (if kalmanTrackers m = []
      then map (\<lambda>c. KalmanTracker c (dt m) (magnitudeOfAccelerationNoise m)) massCenters
      else kalmanTrackers m)"

text \<open>Lines 72 to 84: the distances from every tracker's latest prediction to every detection.\<close>

definition costMatrix :: "deps \<Rightarrow> kalman_tracker list \<Rightarrow> point2f list \<Rightarrow> real list list" where
  "costMatrix d ts massCenters =
     map (\<lambda>t. map (\<lambda>c. cv_norm (latestPrediction d (kf t)) c) massCenters) ts"

text \<open>
  The solver's contract, as the spec gives it: the array has one entry per tracker, and
  every entry is -1 or the index of a detection.
\<close>

definition fits :: "nat \<Rightarrow> nat \<Rightarrow> int list \<Rightarrow> bool" where
  "fits nT nC assignment =
     (length assignment = nT \<and>
      list_all (\<lambda>a. a = -1 \<or> (0 \<le> a \<and> a < int nC)) assignment)"

text \<open>
  The loops after the solver index the pool, the cost matrix and the detections with the
  solver's array and its entries, unchecked. The source reads or erases out of range in
  three cases, and the model gives no result then: the array is longer than the pool (the
  gate loop indexes the pool with it); an entry is neither -1 nor the index of a
  detection (it indexes a row of the cost matrix); a tracker beyond the end of the array
  is past the threshold of missed frames (the erase loop erases the array at an index it
  does not have). A well-formed array is in none of them.
\<close>

definition out_of_range :: "int \<Rightarrow> kalman_tracker list \<Rightarrow> nat \<Rightarrow> int list \<Rightarrow> bool" where
  "out_of_range thr ts nC assignment =
     (length ts < length assignment \<or>
      list_ex (\<lambda>a. a \<noteq> -1 \<and> (a < 0 \<or> int nC \<le> a)) assignment \<or>
      list_ex (\<lambda>t. thr < numFramesWithoutUpdate t) (drop (length assignment) ts))"

definition frameDimension :: "multi_object_tracker \<Rightarrow> real" where
  "frameDimension m = 0.5 * of_int (snd (frameSize m) + fst (frameSize m))"

text \<open>
  Lines 90 to 102: a pairing whose cost is above the gate is cancelled and the tracker's
  index is pushed on \<open>kalmansWithoutCenters\<close> (the third component; nothing reads it
  afterwards). A tracker the solver left alone is told it got no update.
\<close>

fun unassign_far ::
  "real \<Rightarrow> kalman_tracker list \<Rightarrow> real list list \<Rightarrow> int list \<Rightarrow> nat \<Rightarrow>
   kalman_tracker list \<times> int list \<times> nat list" where
  "unassign_far gate (t # ts) (row # rows) (a # as) i =
     (let (ts', as', far) = unassign_far gate ts rows as (Suc i)
      in if a \<noteq> -1
         then (if row ! nat a > gate then (t # ts', -1 # as', i # far)
               else (t # ts', a # as', far))
         else (noUpdateThisFrame t # ts', a # as', far))"
| "unassign_far gate ts rows as i = (ts, as, [])"

text \<open>
  Lines 104 to 117: an unassigned tracker whose latest prediction lies in some detection's
  bounding box gets \<open>gotUpdate()\<close>; the inner loop stops at the first such box.
\<close>

fun inside_any :: "deps \<Rightarrow> rect list \<Rightarrow> kalman_tracker \<Rightarrow> kalman_tracker" where
  "inside_any d [] t = t"
| "inside_any d (r # rs) t =
     (if contains r (toPoint (latestPrediction d (kf t))) then gotUpdate t
      else inside_any d rs t)"

fun occluded :: "deps \<Rightarrow> rect list \<Rightarrow> kalman_tracker list \<Rightarrow> int list \<Rightarrow> kalman_tracker list" where
  "occluded d boundingRects (t # ts) (a # as) =
     (if a = -1 then inside_any d boundingRects t else t) # occluded d boundingRects ts as"
| "occluded d boundingRects ts as = ts"

text \<open>
  Lines 119 to 126: a tracker whose counter is past the threshold is erased, and the entry
  at the same index of the assignment array with it.
\<close>

fun remove_dead :: "int \<Rightarrow> kalman_tracker list \<Rightarrow> int list \<Rightarrow> kalman_tracker list \<times> int list" where
  "remove_dead thr (t # ts) (a # as) =
     (let (ts', as') = remove_dead thr ts as
      in if numFramesWithoutUpdate t > thr then (ts', as') else (t # ts', a # as'))"
| "remove_dead thr ts as = (ts, as)"

text \<open>Lines 128 to 136: the detections no entry of the assignment array names.\<close>

definition centersWithoutKalman :: "nat \<Rightarrow> int list \<Rightarrow> nat list" where
  "centersWithoutKalman nC assignment = filter (\<lambda>i. int i \<notin> set assignment) [0..<nC]"

text \<open>Lines 138 to 141: each of them becomes a tracker, built from the point alone.\<close>

definition births :: "deps \<Rightarrow> point2f list \<Rightarrow> nat list \<Rightarrow> kalman_tracker list" where
  "births d massCenters free = map (\<lambda>i. KalmanTracker1 d (massCenters ! i)) free"

text \<open>
  Lines 143 to 153: the loop runs over the assignment array, so over the trackers that
  have an entry in it; the trackers pushed at the end of the pool by the births are
  beyond its bound.
\<close>

fun correct_all :: "point2f list \<Rightarrow> kalman_tracker list \<Rightarrow> int list \<Rightarrow> kalman_tracker list" where
  "correct_all massCenters (t # ts) (a # as) =
     (if a \<noteq> -1 then gotUpdate (correct (massCenters ! nat a) (predict t))
      else correct_no_obs (predict t)) # correct_all massCenters ts as"
| "correct_all massCenters ts as = ts"

text \<open>Lines 155 to 160: the latest predictions of the trackers whose lifetime is past the threshold.\<close>

definition visible :: "deps \<Rightarrow> int \<Rightarrow> kalman_tracker list \<Rightarrow> point2i list" where
  "visible d lthr ts =
     map (\<lambda>t. toPoint (latestPrediction d (kf t))) (filter (\<lambda>t. getLifetime d (kf t) > lthr) ts)"

subsection \<open>update\<close>

text \<open>
  \<open>MultiObjectTracker::update\<close>: the tracker after the call and \<open>outputPredictions\<close>.
\<close>

definition update ::
  "deps \<Rightarrow> multi_object_tracker \<Rightarrow> point2f list \<Rightarrow> rect list \<Rightarrow>
   (multi_object_tracker \<times> point2i list) option" where
  "update d m massCenters boundingRects =
     (if massCenters = [] then
        (let (ts, out) = predict_visible d (lifetimeThreshold m)
                           (age_all (missedFramesThreshold m) (kalmanTrackers m))
         in Some (m\<lparr>kalmanTrackers := ts\<rparr>, out))
      else
        (let ts0 = seed_pool m massCenters;
             cost = costMatrix d ts0 massCenters;
             assignment = Solve d cost
         in if out_of_range (missedFramesThreshold m) ts0 (length massCenters) assignment then None
            else
              (let (ts1, as1, far) =
                     unassign_far (distanceThreshold m * frameDimension m) ts0 cost assignment 0;
                   ts2 = occluded d boundingRects ts1 as1;
                   (ts3, as3) = remove_dead (missedFramesThreshold m) ts2 as1;
                   ts4 = ts3 @ births d massCenters (centersWithoutKalman (length massCenters) as3);
                   ts5 = correct_all massCenters ts4 as3
               in Some (m\<lparr>kalmanTrackers := ts5\<rparr>, visible d (lifetimeThreshold m) ts5))))"

subsection \<open>Program points of a frame with detections\<close>

text \<open>
  The values \<open>update\<close> holds between its loops, named so that the theorems can speak about
  them: the solver's array, the pool and the array after the gate, the pool after the
  bounding-box pass, and the pool and the array after the erase loop.
\<close>

definition solved :: "deps \<Rightarrow> multi_object_tracker \<Rightarrow> point2f list \<Rightarrow> int list" where
  "solved d m massCenters = Solve d (costMatrix d (seed_pool m massCenters) massCenters)"

definition after_gate ::
  "deps \<Rightarrow> multi_object_tracker \<Rightarrow> point2f list \<Rightarrow> kalman_tracker list \<times> int list \<times> nat list" where
  "after_gate d m massCenters =
     unassign_far (distanceThreshold m * frameDimension m) (seed_pool m massCenters)
       (costMatrix d (seed_pool m massCenters) massCenters) (solved d m massCenters) 0"

definition gated :: "deps \<Rightarrow> multi_object_tracker \<Rightarrow> point2f list \<Rightarrow> int list" where
  "gated d m massCenters = fst (snd (after_gate d m massCenters))"

definition tolerated ::
  "deps \<Rightarrow> multi_object_tracker \<Rightarrow> point2f list \<Rightarrow> rect list \<Rightarrow> kalman_tracker list" where
  "tolerated d m massCenters boundingRects =
     occluded d boundingRects (fst (after_gate d m massCenters)) (gated d m massCenters)"

definition kept ::
  "deps \<Rightarrow> multi_object_tracker \<Rightarrow> point2f list \<Rightarrow> rect list \<Rightarrow> kalman_tracker list \<times> int list" where
  "kept d m massCenters boundingRects =
     remove_dead (missedFramesThreshold m) (tolerated d m massCenters boundingRects)
       (gated d m massCenters)"

text \<open>
  The index a tracker has after an erase loop: the number of trackers before it that
  stay (lemma \<open>remove_dead_slot\<close> below).
\<close>

definition slot :: "int \<Rightarrow> kalman_tracker list \<Rightarrow> nat \<Rightarrow> nat" where
  "slot thr ts i = length (filter (\<lambda>t. numFramesWithoutUpdate t \<le> thr) (take i ts))"

subsection \<open>A small configuration to run the code on\<close>

text \<open>
  A solver for the examples: tracker \<open>i\<close> is paired with detection \<open>i\<close> while both
  exist. On a matrix with one row and one column this is the optimal assignment. The
  filter of the examples predicts its seed point, and its lifetime is the number of
  calls made on it.
\<close>

definition pair_in_order :: "real list list \<Rightarrow> int list" where
  "pair_in_order cost =
     map (\<lambda>i. if i < length (hd cost) then int i else -1) [0..<length cost]"

definition d0 :: deps where
  "d0 = \<lparr>Solve = pair_in_order, latestPrediction = startPt,
          getLifetime = (\<lambda>k. int (length (calls k))), defaultDt = 1, defaultAccel = 1 / 2\<rparr>"

text \<open>
  A 500 by 500 frame with the gate at a tenth of it, before the first detection
  (\<open>m_init\<close>); after a first frame with one detection at (10, 10) (\<open>m0\<close>); and after a
  second frame whose only detection is at (400, 400) (\<open>m1\<close>).
\<close>

definition m_init :: multi_object_tracker where
  "m_init = \<lparr>kalmanTrackers = [], frameSize = (500, 500),
          lifetimeThreshold = 0, distanceThreshold = 1 / 10, missedFramesThreshold = 5,
          magnitudeOfAccelerationNoise = 3, dt = 2\<rparr>"

definition m0 :: multi_object_tracker where
  "m0 = m_init\<lparr>kalmanTrackers :=
          [\<lparr>kf = \<lparr>startPt = (10, 10), kf_dt = 2, kf_accel = 3,
                  calls = [Predict, Correct (10, 10)]\<rparr>,
            numFramesWithoutUpdate = 0\<rparr>]\<rparr>"

definition m1 :: multi_object_tracker where
  "m1 = m_init\<lparr>kalmanTrackers :=
          [\<lparr>kf = \<lparr>startPt = (10, 10), kf_dt = 2, kf_accel = 3,
                  calls = [Predict, Correct (10, 10), Predict, CorrectNoObs]\<rparr>,
            numFramesWithoutUpdate = 0\<rparr>,
           \<lparr>kf = \<lparr>startPt = (400, 400), kf_dt = 1, kf_accel = 1 / 2, calls = []\<rparr>,
            numFramesWithoutUpdate = 0\<rparr>]\<rparr>"

text \<open>And after a third frame, without detections (\<open>m2\<close>).\<close>

definition m2 :: multi_object_tracker where
  "m2 = m_init\<lparr>kalmanTrackers :=
          [\<lparr>kf = \<lparr>startPt = (10, 10), kf_dt = 2, kf_accel = 3,
                  calls = [Predict, Correct (10, 10), Predict, CorrectNoObs, Predict]\<rparr>,
            numFramesWithoutUpdate = 1\<rparr>,
           \<lparr>kf = \<lparr>startPt = (400, 400), kf_dt = 1, kf_accel = 1 / 2, calls = []\<rparr>,
            numFramesWithoutUpdate = 1\<rparr>]\<rparr>"

text \<open>The bounding box of a small blob around (400, 400), and one of a blob that reaches (10, 10).\<close>

definition box_far :: rect where
  "box_far = \<lparr>rect_x = 380, rect_y = 380, rect_width = 40, rect_height = 40\<rparr>"

definition box_wide :: rect where
  "box_wide = \<lparr>rect_x = 0, rect_y = 0, rect_width = 450, rect_height = 450\<rparr>"

text \<open>The bounding box of a small blob around (10, 10).\<close>

definition box_near :: rect where
  "box_near = \<lparr>rect_x = 0, rect_y = 0, rect_width = 40, rect_height = 40\<rparr>"

text \<open>
  A pool of two filters: the first was updated in the last frame, the second is a filter
  born at (200, 200) that has gone five frames without an update (\<open>m3\<close>). The same
  pool with the second filter at (449.6, 10) and its counter at 0 (\<open>m_edge\<close>).
\<close>

definition m3 :: multi_object_tracker where
  "m3 = m_init\<lparr>kalmanTrackers :=
          [\<lparr>kf = \<lparr>startPt = (10, 10), kf_dt = 2, kf_accel = 3,
                  calls = [Predict, Correct (10, 10)]\<rparr>,
            numFramesWithoutUpdate = 0\<rparr>,
           \<lparr>kf = \<lparr>startPt = (200, 200), kf_dt = 1, kf_accel = 1 / 2, calls = []\<rparr>,
            numFramesWithoutUpdate = 5\<rparr>]\<rparr>"

definition m_edge :: multi_object_tracker where
  "m_edge = m_init\<lparr>kalmanTrackers :=
          [\<lparr>kf = \<lparr>startPt = (10, 10), kf_dt = 2, kf_accel = 3,
                  calls = [Predict, Correct (10, 10)]\<rparr>,
            numFramesWithoutUpdate = 0\<rparr>,
           \<lparr>kf = \<lparr>startPt = (2248 / 5, 10), kf_dt = 1, kf_accel = 1 / 2, calls = []\<rparr>,
            numFramesWithoutUpdate = 0\<rparr>]\<rparr>"

text \<open>
  What \<open>m3\<close> becomes in a frame whose only detection is at (10, 10): with the small
  bounding box (\<open>m3_unseen\<close>), and with the wide one (\<open>m3_covered\<close>); and in a frame
  without detections (\<open>m3_quiet\<close>). What \<open>m_edge\<close> becomes in the frame with the wide
  box (\<open>m_edge1\<close>).
\<close>

definition m3_unseen :: multi_object_tracker where
  "m3_unseen = m_init\<lparr>kalmanTrackers :=
          [\<lparr>kf = \<lparr>startPt = (10, 10), kf_dt = 2, kf_accel = 3,
                  calls = [Predict, Correct (10, 10), Predict, Correct (10, 10)]\<rparr>,
            numFramesWithoutUpdate = 0\<rparr>]\<rparr>"

definition m3_covered :: multi_object_tracker where
  "m3_covered = m_init\<lparr>kalmanTrackers :=
          [\<lparr>kf = \<lparr>startPt = (10, 10), kf_dt = 2, kf_accel = 3,
                  calls = [Predict, Correct (10, 10), Predict, Correct (10, 10)]\<rparr>,
            numFramesWithoutUpdate = 0\<rparr>,
           \<lparr>kf = \<lparr>startPt = (200, 200), kf_dt = 1, kf_accel = 1 / 2,
                  calls = [Predict, CorrectNoObs]\<rparr>,
            numFramesWithoutUpdate = 0\<rparr>]\<rparr>"

definition m3_quiet :: multi_object_tracker where
  "m3_quiet = m_init\<lparr>kalmanTrackers :=
          [\<lparr>kf = \<lparr>startPt = (10, 10), kf_dt = 2, kf_accel = 3,
                  calls = [Predict, Correct (10, 10), Predict]\<rparr>,
            numFramesWithoutUpdate = 1\<rparr>]\<rparr>"

definition m_edge1 :: multi_object_tracker where
  "m_edge1 = m_init\<lparr>kalmanTrackers :=
          [\<lparr>kf = \<lparr>startPt = (10, 10), kf_dt = 2, kf_accel = 3,
                  calls = [Predict, Correct (10, 10), Predict, Correct (10, 10)]\<rparr>,
            numFramesWithoutUpdate = 0\<rparr>,
           \<lparr>kf = \<lparr>startPt = (2248 / 5, 10), kf_dt = 1, kf_accel = 1 / 2,
                  calls = [Predict, CorrectNoObs]\<rparr>,
            numFramesWithoutUpdate = 1\<rparr>]\<rparr>"

text \<open>
  The tracker of \<open>m_init\<close> built with the threshold of missed frames at -1: before the
  first detection (\<open>m_neg_init\<close>), after a first frame with one detection at (10, 10)
  (\<open>m_neg1\<close>), and after a second frame whose only detection is at (400, 400)
  (\<open>m_neg2\<close>).
\<close>

definition m_neg_init :: multi_object_tracker where
  "m_neg_init = m_init\<lparr>missedFramesThreshold := -1\<rparr>"

definition m_neg1 :: multi_object_tracker where
  "m_neg1 = m_neg_init\<lparr>kalmanTrackers :=
          [\<lparr>kf = \<lparr>startPt = (10, 10), kf_dt = 1, kf_accel = 1 / 2, calls = []\<rparr>,
            numFramesWithoutUpdate = 0\<rparr>]\<rparr>"

definition m_neg2 :: multi_object_tracker where
  "m_neg2 = m_neg_init\<lparr>kalmanTrackers :=
          [\<lparr>kf = \<lparr>startPt = (400, 400), kf_dt = 1, kf_accel = 1 / 2, calls = []\<rparr>,
            numFramesWithoutUpdate = 0\<rparr>]\<rparr>"

section \<open>ContourFinder\<close>

text \<open>
  A contour is the point sequence \<open>cv::findContours\<close> returns for one blob. The model
  starts where the repository's own code does, from the extracted contours: the
  background model, the threshold, the blur and the dilation are OpenCV's.
\<close>

type_synonym contour = "point2i list"

text \<open>
  The OpenCV functions the contour code calls on a contour, as parameters:
  \<open>cv::contourArea\<close>; the moments \<open>m00\<close>, \<open>m10\<close>, \<open>m01\<close> of \<open>cv::moments\<close>; and
  \<open>cv::boundingRect\<close> of the \<open>cv::approxPolyDP\<close> polygon with tolerance 3.
\<close>

record cvlib =
  contourArea :: "contour \<Rightarrow> real"
  moments :: "contour \<Rightarrow> real \<times> real \<times> real"
  boundingBox :: "contour \<Rightarrow> rect"

text \<open>
  The fields the contour code reads. \<open>contourSizeThreshold\<close> is the \<open>float\<close> the
  constructor of the implementation file takes.
\<close>

record contour_finder =
  contourSizeThreshold :: real
  contourMergeThreshold :: real

text \<open>
  A floating-point value that need not be finite: the quotient \<open>m10 / m00\<close> is computed
  whatever \<open>m00\<close> is, and a division by zero gives an infinity or not-a-number instead of
  a trap.
\<close>

datatype ieee = Finite real | PlusInf | MinusInf | NaN

definition fdiv :: "real \<Rightarrow> real \<Rightarrow> ieee" where
  "fdiv a b =
     (if b \<noteq> 0 then Finite (a / b)
      else if a = 0 then NaN else if 0 < a then PlusInf else MinusInf)"

type_synonym center = "ieee \<times> ieee"

text \<open>
  The conversion of a \<open>double\<close> to \<open>int\<close> discards the fraction. An \<open>int\<close> has
  32 bits, and the behaviour of the conversion is undefined when the value without its
  fraction is not an \<open>int\<close>: there is no result then.
\<close>

definition toward_zero :: "real \<Rightarrow> int" where
  "toward_zero v = (if 0 \<le> v then \<lfloor>v\<rfloor> else \<lceil>v\<rceil>)"

definition INT_MIN :: int where
  "INT_MIN = - (2 ^ 31)"

definition INT_MAX :: int where
  "INT_MAX = 2 ^ 31 - 1"

definition to_int :: "real \<Rightarrow> int option" where
  "to_int v =
     (if INT_MIN \<le> toward_zero v \<and> toward_zero v \<le> INT_MAX then Some (toward_zero v) else None)"

subsection \<open>filterOutBadContours (lines 30 to 57)\<close>

text \<open>
  \<open>std::accumulate\<close> is called with the initial value \<open>0\<close>, an \<open>int\<close>, so it
  accumulates in an \<open>int\<close>: the operation is applied to the accumulator and the next
  element as \<open>double\<close>s, and what it returns is converted back to \<open>int\<close> at every
  step.
\<close>

fun accumulate :: "real list \<Rightarrow> int \<Rightarrow> (real \<Rightarrow> real \<Rightarrow> real) \<Rightarrow> int option" where
  "accumulate [] init binary_op = Some init"
| "accumulate (x # xs) init binary_op =
     (case to_int (binary_op (of_int init) x) of
        None \<Rightarrow> None
      | Some init' \<Rightarrow> accumulate xs init' binary_op)"

definition maxArea :: "real list \<Rightarrow> int option" where
  "maxArea areas = accumulate areas 0 (\<lambda>prevMaxArea area. max prevMaxArea area)"

text \<open>
  \<open>int threshold = contourSizeThreshold * maxArea\<close>: the product is a \<open>double\<close>,
  converted to \<open>int\<close>.
\<close>

definition threshold :: "cvlib \<Rightarrow> contour_finder \<Rightarrow> contour list \<Rightarrow> int option" where
  "threshold cv cf contours =
     (case maxArea (map (contourArea cv) contours) of
        None \<Rightarrow> None
      | Some largest \<Rightarrow> to_int (contourSizeThreshold cf * of_int largest))"

text \<open>The contours whose area is not above the threshold are removed; the others keep their order.\<close>

definition filterOutBadContours ::
  "cvlib \<Rightarrow> contour_finder \<Rightarrow> contour list \<Rightarrow> contour list option" where
  "filterOutBadContours cv cf contours =
     (case threshold cv cf contours of
        None \<Rightarrow> None
      | Some bound \<Rightarrow>
          Some (filter (\<lambda>contour. \<not> contourArea cv contour \<le> of_int bound) contours))"

subsection \<open>getCentersAndBoundingBoxes (lines 160 to 181)\<close>

definition massCenter :: "cvlib \<Rightarrow> contour \<Rightarrow> center" where
  "massCenter cv c = (case moments cv c of (m00, m10, m01) \<Rightarrow> (fdiv m10 m00, fdiv m01 m00))"

fun getCentersAndBoundingBoxes :: "cvlib \<Rightarrow> contour list \<Rightarrow> center list \<times> rect list" where
  "getCentersAndBoundingBoxes cv [] = ([], [])"
| "getCentersAndBoundingBoxes cv (c # cs) =
     (let (massCenters, boundingBoxes) = getCentersAndBoundingBoxes cv cs
      in (massCenter cv c # massCenters, boundingBox cv c # boundingBoxes))"

subsection \<open>mergeContours (lines 100 to 158)\<close>

text \<open>
  Modelled from the spec: \<open>DisjointSets\<close> (\<open>disjoint_set.hpp\<close> is not among the
  sources). The spec gives it by its contract only, so the object is kept as what was
  done to it, its size and the \<open>Union\<close> calls in order, and \<open>FindSet\<close> is a parameter
  of the merge. The contract \<open>represents\<close>: the representative of an element is an
  element, it is its own representative, and two elements have the same one exactly when
  a chain of \<open>Union\<close> calls links them.
\<close>

record disjoint_sets =
  numElements :: nat
  unions :: "(nat \<times> nat) list"

definition DisjointSets :: "nat \<Rightarrow> disjoint_sets" where
  "DisjointSets n = \<lparr>numElements = n, unions = []\<rparr>"

definition Union_sets :: "disjoint_sets \<Rightarrow> nat \<Rightarrow> nat \<Rightarrow> disjoint_sets" where
  "Union_sets s i j = s\<lparr>unions := unions s @ [(i, j)]\<rparr>"

definition linked :: "disjoint_sets \<Rightarrow> (nat \<times> nat) set" where
  "linked s = (set (unions s) \<union> (set (unions s))\<inverse>)\<^sup>*"

definition represents :: "(disjoint_sets \<Rightarrow> nat \<Rightarrow> nat) \<Rightarrow> disjoint_sets \<Rightarrow> bool" where
  "represents FindSet s =
     (\<forall>i < numElements s.
        FindSet s i < numElements s \<and> FindSet s (FindSet s i) = FindSet s i \<and>
        (\<forall>j < numElements s. (FindSet s i = FindSet s j) = ((i, j) \<in> linked s)))"

text \<open>
  Line 117: the distance of two centroids against the larger side of the two boxes. A
  comparison with an operand that is not finite is false.
\<close>

definition dimension :: "rect \<Rightarrow> rect \<Rightarrow> real" where
  "dimension a b =
     of_int (max (max (rect_width a) (rect_height a)) (max (rect_width b) (rect_height b)))"

fun norm_less :: "center \<Rightarrow> center \<Rightarrow> real \<Rightarrow> bool" where
  "norm_less (Finite x1, Finite y1) (Finite x2, Finite y2) bound =
     (cv_norm (x1, y1) (x2, y2) < bound)"
| "norm_less p q bound = False"

definition mergeable :: "contour_finder \<Rightarrow> center list \<Rightarrow> rect list \<Rightarrow> nat \<Rightarrow> nat \<Rightarrow> bool" where
  "mergeable cf massCenters boundingBoxes i j =
     norm_less (massCenters ! i) (massCenters ! j)
       (contourMergeThreshold cf * dimension (boundingBoxes ! i) (boundingBoxes ! j))"

text \<open>Lines 103 to 121: both loops run over all contours, so every pair is met in both orders.\<close>

definition union_pass :: "contour_finder \<Rightarrow> nat \<Rightarrow> center list \<Rightarrow> rect list \<Rightarrow> disjoint_sets" where
  "union_pass cf n massCenters boundingBoxes =
     foldl (\<lambda>sets i.
        foldl (\<lambda>sets j.
           if i = j then sets
           else if mergeable cf massCenters boundingBoxes i j then Union_sets sets i j
           else sets) sets [0..<n])
       (DisjointSets n) [0..<n]"

text \<open>
  Lines 123 to 131: \<open>itemsForSet\<close> maps a representative to the indices it stands for,
  in rising order. The map is kept as an association list in the order the keys were
  inserted; \<open>std::unordered_map\<close> fixes no order, and the theorems about the merged
  contours speak of them as a multiset.
\<close>

fun push_back_at :: "nat \<Rightarrow> nat \<Rightarrow> (nat \<times> nat list) list \<Rightarrow> (nat \<times> nat list) list" where
  "push_back_at k i [] = [(k, [i])]"
| "push_back_at k i ((k', items) # rest) =
     (if k' = k then (k', items @ [i]) # rest else (k', items) # push_back_at k i rest)"

definition itemsForSet :: "(nat \<Rightarrow> nat) \<Rightarrow> nat \<Rightarrow> (nat \<times> nat list) list" where
  "itemsForSet findSet n = foldl (\<lambda>m i. push_back_at (findSet i) i m) [] [0..<n]"

text \<open>
  Lines 133 to 153: a set of one index gives the contour at its key; a larger one the
  contour of its first index with the points of the others copied behind.
\<close>

definition aggregate :: "contour list \<Rightarrow> nat \<times> nat list \<Rightarrow> contour" where
  "aggregate contours kv =
     (if length (snd kv) = 1 then contours ! fst kv
      else foldl (\<lambda>agg i. agg @ contours ! i) (contours ! hd (snd kv)) (tl (snd kv)))"

text \<open>
  The vectors of centroids and boxes are indexed with the indices of the contours (once
  there are two contours to compare), and the contours with the key of a set of one
  index, unchecked: where one of them is out of range the model gives no result.
\<close>

definition mergeContours ::
  "(disjoint_sets \<Rightarrow> nat \<Rightarrow> nat) \<Rightarrow> contour_finder \<Rightarrow> contour list \<Rightarrow> center list \<Rightarrow> rect list \<Rightarrow>
   contour list option" where
  "mergeContours FindSet cf contours massCenters boundingBoxes =
     (let n = length contours
      in if 2 \<le> n \<and> (length massCenters < n \<or> length boundingBoxes < n) then None
         else
           (let sets = union_pass cf n massCenters boundingBoxes;
                items = itemsForSet (FindSet sets) n
            in if list_ex (\<lambda>kv. length (snd kv) = 1 \<and> n \<le> fst kv) items then None
               else Some (map (aggregate contours) items)))"

subsection \<open>findContours, from the extracted contours on (lines 87 to 97)\<close>

text \<open>
  The size filter, the centroids and boxes, the merge, and the centroids and boxes again;
  there is no result where the size filter or the merge has none.
\<close>

definition findContours ::
  "cvlib \<Rightarrow> (disjoint_sets \<Rightarrow> nat \<Rightarrow> nat) \<Rightarrow> contour_finder \<Rightarrow> contour list \<Rightarrow>
   (contour list \<times> center list \<times> rect list) option" where
  "findContours cv FindSet cf extracted =
     (case filterOutBadContours cv cf extracted of
        None \<Rightarrow> None
      | Some contours \<Rightarrow>
          (let (massCenters, boundingBoxes) = getCentersAndBoundingBoxes cv contours
           in case mergeContours FindSet cf contours massCenters boundingBoxes of
                None \<Rightarrow> None
              | Some merged \<Rightarrow>
                  (let (massCenters', boundingBoxes') = getCentersAndBoundingBoxes cv merged
                   in Some (merged, massCenters', boundingBoxes'))))"

text \<open>
  An implementation of the contract, for running the code: every element carries the label
  of its set, and a \<open>Union\<close> gives the label of the second set to the elements of the
  first.
\<close>

definition relabel :: "nat list \<Rightarrow> nat \<times> nat \<Rightarrow> nat list" where
  "relabel labels u = map (\<lambda>r. if r = labels ! fst u then labels ! snd u else r) labels"

definition FindSet0 :: "disjoint_sets \<Rightarrow> nat \<Rightarrow> nat" where
  "FindSet0 s i = foldl relabel [0..<numElements s] (unions s) ! i"

subsection \<open>The merge as the spec words it\<close>

text \<open>
  The relation the spec closes under transitivity, between the indices of the contours;
  the class of an index as the list of its members in rising order; and one index for
  every class, its least member.
\<close>

definition proximity :: "contour_finder \<Rightarrow> center list \<Rightarrow> rect list \<Rightarrow> nat \<Rightarrow> (nat \<times> nat) set" where
  "proximity cf massCenters boundingBoxes n =
     {(i, j). i < n \<and> j < n \<and> i \<noteq> j \<and> mergeable cf massCenters boundingBoxes i j}"

definition merge_class ::
  "contour_finder \<Rightarrow> center list \<Rightarrow> rect list \<Rightarrow> nat \<Rightarrow> nat \<Rightarrow> nat list" where
  "merge_class cf massCenters boundingBoxes n i =
     filter (\<lambda>j. (i, j) \<in> (proximity cf massCenters boundingBoxes n)\<^sup>*) [0..<n]"

definition class_leaders :: "contour_finder \<Rightarrow> center list \<Rightarrow> rect list \<Rightarrow> nat \<Rightarrow> nat list" where
  "class_leaders cf massCenters boundingBoxes n =
     filter (\<lambda>i. \<forall>j < i. (j, i) \<notin> (proximity cf massCenters boundingBoxes n)\<^sup>*) [0..<n]"

subsection \<open>OpenCV's formulas, and three contours to run the code on\<close>

text \<open>
  \<open>cv::contourArea\<close> and \<open>cv::moments\<close> walk the closed polygon once: \<open>a00\<close> sums the
  cross products of consecutive points, \<open>a10\<close> and \<open>a01\<close> weigh them with the sums of
  the coordinates. The area is half of \<open>|a00|\<close>; the moments are \<open>a00 / 2\<close>, \<open>a10 / 6\<close>,
  \<open>a01 / 6\<close> with the sign of \<open>a00\<close>, and all zero when \<open>a00\<close> is. The box of the example
  is the bounding rectangle of the points themselves.
\<close>

fun green :: "point2i \<Rightarrow> contour \<Rightarrow> int \<times> int \<times> int" where
  "green prev [] = (0, 0, 0)"
| "green prev (p # ps) =
     (let (a00, a10, a01) = green p ps;
          dxy = fst prev * snd p - fst p * snd prev
      in (a00 + dxy, a10 + dxy * (fst prev + fst p), a01 + dxy * (snd prev + snd p)))"

definition cv_contourArea :: "contour \<Rightarrow> real" where
  "cv_contourArea c = (if c = [] then 0 else \<bar>of_int (fst (green (last c) c))\<bar> / 2)"

definition cv_moments :: "contour \<Rightarrow> real \<times> real \<times> real" where
  "cv_moments c =
     (if c = [] then (0, 0, 0)
      else (let (a00, a10, a01) = green (last c) c
            in if a00 = 0 then (0, 0, 0)
               else if 0 < a00 then (of_int a00 / 2, of_int a10 / 6, of_int a01 / 6)
               else (- of_int a00 / 2, - of_int a10 / 6, - of_int a01 / 6)))"

definition cv_boundingRect :: "contour \<Rightarrow> rect" where
  "cv_boundingRect c =
     (if c = [] then \<lparr>rect_x = 0, rect_y = 0, rect_width = 0, rect_height = 0\<rparr>
      else \<lparr>rect_x = Min (fst ` set c), rect_y = Min (snd ` set c),
            rect_width = Max (fst ` set c) - Min (fst ` set c) + 1,
            rect_height = Max (snd ` set c) - Min (snd ` set c) + 1\<rparr>)"

definition cv0 :: cvlib where
  "cv0 = \<lparr>contourArea = cv_contourArea, moments = cv_moments, boundingBox = cv_boundingRect\<rparr>"

text \<open>A 3 by 1 rectangle (area 3), a triangle (area 3/2) and a segment walked forth and back (area 0).\<close>

definition strip :: contour where
  "strip = [(0, 0), (3, 0), (3, 1), (0, 1)]"

definition wedge :: contour where
  "wedge = [(0, 0), (3, 0), (0, 1)]"

definition hairline :: contour where
  "hairline = [(5, 5), (9, 9)]"

text \<open>
  Three squares of side 40: the centroids of the first two are 10 apart, the third is far
  from both.
\<close>

definition blob_a :: contour where
  "blob_a = [(80, 80), (120, 80), (120, 120), (80, 120)]"

definition blob_b :: contour where
  "blob_b = [(90, 80), (130, 80), (130, 120), (90, 120)]"

definition blob_c :: contour where
  "blob_c = [(300, 300), (340, 300), (340, 340), (300, 340)]"

text \<open>A contour finder that keeps areas above half of the largest and merges within half a box side.\<close>

definition cf0 :: contour_finder where
  "cf0 = \<lparr>contourSizeThreshold = 1 / 2, contourMergeThreshold = 1 / 2\<rparr>"

text \<open>
  A triangle of area 7/2, and a square of side 50000, whose area 2500000000 is above the
  largest \<open>int\<close>.
\<close>

definition long_wedge :: contour where
  "long_wedge = [(0, 0), (7, 0), (0, 1)]"

definition huge :: contour where
  "huge = [(0, 0), (50000, 0), (50000, 50000), (0, 50000)]"

text \<open>A square of side 40, and the same square walked the other way round.\<close>

definition ring :: contour where
  "ring = [(0, 0), (40, 0), (40, 40), (0, 40)]"

definition ring_back :: contour where
  "ring_back = [(0, 40), (40, 40), (40, 0), (0, 0)]"

text \<open>Contour finders with the size fraction at 9/10 and at -1/2.\<close>

definition cf_high :: contour_finder where
  "cf_high = \<lparr>contourSizeThreshold = 9 / 10, contourMergeThreshold = 1 / 2\<rparr>"

definition cf_neg :: contour_finder where
  "cf_neg = \<lparr>contourSizeThreshold = - (1 / 2), contourMergeThreshold = 1 / 2\<rparr>"

section \<open>The loops of update as list functions\<close>

lemma age_all_filter:
  "age_all thr ts = filter (\<lambda>t. numFramesWithoutUpdate t \<le> thr) (map noUpdateThisFrame ts)"
  by (induction ts) (auto simp: Let_def)

lemma predict_visible_pool:
  "fst (predict_visible d lthr ts) =
     map (\<lambda>t. if getLifetime d (kf t) > lthr then predict t else t) ts"
  by (induction ts) (auto simp: Let_def split: prod.splits)

lemma predict_visible_out:
  "snd (predict_visible d lthr ts) =
     map (\<lambda>t. toPoint (latestPrediction d (kf (predict t))))
       (filter (\<lambda>t. getLifetime d (kf t) > lthr) ts)"
  by (induction ts) (auto simp: Let_def split: prod.splits)

lemma unassign_far_pool:
  "length rows = length ts \<Longrightarrow> length as = length ts \<Longrightarrow>
   fst (unassign_far gate ts rows as i) =
     map (\<lambda>(t, a). if a = -1 then noUpdateThisFrame t else t) (zip ts as)"
proof (induction gate ts rows as i rule: unassign_far.induct)
  case (1 gate t ts row rows a as i)
  then show ?case by (auto simp: Let_def split: prod.splits)
qed auto

lemma unassign_far_assignment:
  "length rows = length ts \<Longrightarrow> length as = length ts \<Longrightarrow>
   fst (snd (unassign_far gate ts rows as i)) =
     map (\<lambda>(row, a). if a \<noteq> -1 \<and> row ! nat a > gate then -1 else a) (zip rows as)"
proof (induction gate ts rows as i rule: unassign_far.induct)
  case (1 gate t ts row rows a as i)
  then show ?case by (auto simp: Let_def split: prod.splits)
qed auto

lemma inside_any_iff:
  "inside_any d rs t =
     (if list_ex (\<lambda>r. contains r (toPoint (latestPrediction d (kf t)))) rs then gotUpdate t else t)"
  by (induction rs) auto

lemma occluded_map:
  "length as = length ts \<Longrightarrow>
   occluded d rs ts as = map (\<lambda>(t, a). if a = -1 then inside_any d rs t else t) (zip ts as)"
proof (induction d rs ts as rule: occluded.induct)
  case (1 d rs t ts a as)
  then show ?case by auto
qed auto

lemma remove_dead_zip:
  "length as = length ts \<Longrightarrow>
   remove_dead thr ts as =
     (map fst (filter (\<lambda>(t, a). numFramesWithoutUpdate t \<le> thr) (zip ts as)),
      map snd (filter (\<lambda>(t, a). numFramesWithoutUpdate t \<le> thr) (zip ts as)))"
proof (induction thr ts as rule: remove_dead.induct)
  case (1 thr t ts a as)
  then show ?case by (auto simp: Let_def split: prod.splits)
qed auto

lemma correct_all_Nil: "correct_all cs ts [] = ts"
  by (cases ts) simp_all

lemma correct_all_append:
  "length as = length ts \<Longrightarrow>
   correct_all cs (ts @ new) as =
     map (\<lambda>(t, a). if a \<noteq> -1 then gotUpdate (correct (cs ! nat a) (predict t))
                    else correct_no_obs (predict t)) (zip ts as) @ new"
  by (induction as ts rule: list_induct2) (simp_all add: correct_all_Nil)

lemma filter_nth_slot:
  "i < length xs \<Longrightarrow> P (xs ! i) \<Longrightarrow>
   length (filter P (take i xs)) < length (filter P xs) \<and>
   filter P xs ! length (filter P (take i xs)) = xs ! i"
proof -
  assume i: "i < length xs" and p: "P (xs ! i)"
  have xs: "xs = take i xs @ xs ! i # drop (Suc i) xs"
    using i by (simp add: id_take_nth_drop)
  have "filter P xs = filter P (take i xs) @ xs ! i # filter P (drop (Suc i) xs)"
    using p by (subst xs) simp
  then show ?thesis by (simp add: nth_append)
qed

section \<open>Distances and rounding\<close>

lemma gate_lt_cv_norm:
  "0 \<le> g \<Longrightarrow> g * g < (fst p - fst q) * (fst p - fst q) + (snd p - snd q) * (snd p - snd q) \<Longrightarrow>
   g < cv_norm p q"
  unfolding cv_norm_def by (rule real_less_rsqrt) (simp add: power2_eq_square)

lemma cv_norm_lt_gate:
  "0 \<le> g \<Longrightarrow> (fst p - fst q) * (fst p - fst q) + (snd p - snd q) * (snd p - snd q) < g * g \<Longrightarrow>
   cv_norm p q < g"
  unfolding cv_norm_def by (rule real_less_lsqrt) (simp_all add: power2_eq_square)

lemma far_apart: "50 < cv_norm (10, 10) (400, 400)"
  by (rule gate_lt_cv_norm) simp_all

lemma cvRound_of_int: "cvRound (of_int n) = n"
  by (simp add: cvRound_def)

lemma cvRound_numeral [simp]: "cvRound (numeral n) = numeral n"
  using cvRound_of_int [of "numeral n"] by simp

section \<open>The program points of a frame with detections\<close>

lemma fits_in_range: "fits (length ts) nC as \<Longrightarrow> \<not> out_of_range thr ts nC as"
  by (auto simp: fits_def out_of_range_def list_all_iff list_ex_iff)

lemma update_stages:
  assumes "massCenters \<noteq> []"
    and "fits (length (seed_pool m massCenters)) (length massCenters) (solved d m massCenters)"
  shows "update d m massCenters boundingRects =
     Some (m\<lparr>kalmanTrackers :=
              correct_all massCenters
                (fst (kept d m massCenters boundingRects) @
                 births d massCenters
                   (centersWithoutKalman (length massCenters) (snd (kept d m massCenters boundingRects))))
                (snd (kept d m massCenters boundingRects))\<rparr>,
           visible d (lifetimeThreshold m)
             (correct_all massCenters
                (fst (kept d m massCenters boundingRects) @
                 births d massCenters
                   (centersWithoutKalman (length massCenters) (snd (kept d m massCenters boundingRects))))
                (snd (kept d m massCenters boundingRects))))"
  using assms fits_in_range [OF assms(2), of "missedFramesThreshold m"]
  by (simp add: update_def kept_def tolerated_def gated_def after_gate_def solved_def Let_def
      split: prod.splits)

lemma kf_bookkeeping [simp]:
  "kf (gotUpdate t) = kf t" "kf (noUpdateThisFrame t) = kf t"
  "numFramesWithoutUpdate (gotUpdate t) = 0"
  "numFramesWithoutUpdate (noUpdateThisFrame t) = numFramesWithoutUpdate t + 1"
  "numFramesWithoutUpdate (predict t) = numFramesWithoutUpdate t"
  "numFramesWithoutUpdate (correct p t) = numFramesWithoutUpdate t"
  "numFramesWithoutUpdate (correct_no_obs t) = numFramesWithoutUpdate t"
  by (simp_all add: gotUpdate_def noUpdateThisFrame_def predict_def correct_def
      correct_no_obs_def called_def)

lemma kf_calls [simp]:
  "kf (predict t) = (kf t)\<lparr>calls := calls (kf t) @ [Predict]\<rparr>"
  "kf (correct p t) = (kf t)\<lparr>calls := calls (kf t) @ [Correct p]\<rparr>"
  "kf (correct_no_obs t) = (kf t)\<lparr>calls := calls (kf t) @ [CorrectNoObs]\<rparr>"
  by (simp_all add: predict_def correct_def correct_no_obs_def called_def)

lemma fits_length: "fits nT nC as \<Longrightarrow> length as = nT"
  by (simp add: fits_def)

lemma length_costMatrix [simp]: "length (costMatrix d ts cs) = length ts"
  by (simp add: costMatrix_def)

lemma after_gate_pool:
  assumes "fits (length (seed_pool m cs)) (length cs) (solved d m cs)"
  shows "fst (after_gate d m cs) =
     map (\<lambda>(t, a). if a = -1 then noUpdateThisFrame t else t) (zip (seed_pool m cs) (solved d m cs))"
  unfolding after_gate_def using fits_length [OF assms]
  by (simp add: unassign_far_pool)

lemma gated_eq:
  assumes "fits (length (seed_pool m cs)) (length cs) (solved d m cs)"
  shows "gated d m cs =
     map (\<lambda>(row, a). if a \<noteq> -1 \<and> row ! nat a > distanceThreshold m * frameDimension m then -1 else a)
       (zip (costMatrix d (seed_pool m cs) cs) (solved d m cs))"
  unfolding gated_def after_gate_def using fits_length [OF assms]
  by (simp add: unassign_far_assignment)

lemma length_gated:
  assumes "fits (length (seed_pool m cs)) (length cs) (solved d m cs)"
  shows "length (gated d m cs) = length (seed_pool m cs)"
  using fits_length [OF assms] by (simp add: gated_eq [OF assms])

lemma length_after_gate:
  assumes "fits (length (seed_pool m cs)) (length cs) (solved d m cs)"
  shows "length (fst (after_gate d m cs)) = length (seed_pool m cs)"
  using fits_length [OF assms] by (simp add: after_gate_pool [OF assms])

lemma tolerated_eq:
  assumes "fits (length (seed_pool m cs)) (length cs) (solved d m cs)"
  shows "tolerated d m cs rs =
     map (\<lambda>(t, a). if a = -1 then inside_any d rs t else t) (zip (fst (after_gate d m cs)) (gated d m cs))"
  unfolding tolerated_def
  by (rule occluded_map) (simp add: length_gated [OF assms] length_after_gate [OF assms])

lemma length_tolerated:
  assumes "fits (length (seed_pool m cs)) (length cs) (solved d m cs)"
  shows "length (tolerated d m cs rs) = length (seed_pool m cs)"
  by (simp add: tolerated_eq [OF assms] length_gated [OF assms] length_after_gate [OF assms])

lemma kf_inside_any [simp]: "kf (inside_any d rs t) = kf t"
  by (simp add: inside_any_iff)

lemma kf_tolerated:
  assumes "fits (length (seed_pool m cs)) (length cs) (solved d m cs)"
    and "i < length (seed_pool m cs)"
  shows "kf (tolerated d m cs rs ! i) = kf (seed_pool m cs ! i)"
  using assms(2) fits_length [OF assms(1)]
  by (simp add: tolerated_eq [OF assms(1)] length_gated [OF assms(1)]
      length_after_gate [OF assms(1)] after_gate_pool [OF assms(1)])

lemma kept_eq:
  assumes "fits (length (seed_pool m cs)) (length cs) (solved d m cs)"
  shows "kept d m cs rs =
     (map fst (filter (\<lambda>(t, a). numFramesWithoutUpdate t \<le> missedFramesThreshold m)
         (zip (tolerated d m cs rs) (gated d m cs))),
      map snd (filter (\<lambda>(t, a). numFramesWithoutUpdate t \<le> missedFramesThreshold m)
         (zip (tolerated d m cs rs) (gated d m cs))))"
  unfolding kept_def
  by (rule remove_dead_zip) (simp add: length_gated [OF assms] length_tolerated [OF assms])

lemma filter_fst_zip:
  "length ys = length xs \<Longrightarrow> map fst (filter (\<lambda>(x, y). P x) (zip xs ys)) = filter P xs"
  by (induction xs ys rule: list_induct2') auto

lemma filter_zip_slot:
  assumes "length ys = length xs" and "i < length xs" and "P (xs ! i)"
  shows "length (filter P (take i xs)) < length (filter (\<lambda>(x, y). P x) (zip xs ys)) \<and>
         filter (\<lambda>(x, y). P x) (zip xs ys) ! length (filter P (take i xs)) = (xs ! i, ys ! i)"
proof -
  let ?Q = "\<lambda>(x, y). P x"
  have i: "i < length (zip xs ys)" using assms by simp
  have q: "?Q (zip xs ys ! i)" using assms by simp
  have "length (filter ?Q (take i (zip xs ys))) = length (filter P (take i xs))"
  proof -
    have "map fst (filter ?Q (zip (take i xs) (take i ys))) = filter P (take i xs)"
      by (rule filter_fst_zip) (simp add: assms)
    then have "length (filter ?Q (zip (take i xs) (take i ys))) = length (filter P (take i xs))"
      by (metis length_map)
    then show ?thesis by (simp add: take_zip)
  qed
  with filter_nth_slot [of i "zip xs ys" ?Q, OF i q] show ?thesis
    using assms by simp
qed

lemma remove_dead_slot:
  assumes "length as = length ts" and "i < length ts" and "numFramesWithoutUpdate (ts ! i) \<le> thr"
  shows "slot thr ts i < length (fst (remove_dead thr ts as)) \<and>
         fst (remove_dead thr ts as) ! slot thr ts i = ts ! i \<and>
         snd (remove_dead thr ts as) ! slot thr ts i = as ! i"
  using filter_zip_slot [of as ts i "\<lambda>t. numFramesWithoutUpdate t \<le> thr", OF assms]
  by (simp add: remove_dead_zip [OF assms(1)] slot_def)

lemma length_kept:
  assumes "fits (length (seed_pool m cs)) (length cs) (solved d m cs)"
  shows "length (snd (kept d m cs rs)) = length (fst (kept d m cs rs))"
  by (simp add: kept_eq [OF assms])

lemma fst_kept:
  assumes "fits (length (seed_pool m cs)) (length cs) (solved d m cs)"
  shows "fst (kept d m cs rs) =
     filter (\<lambda>t. numFramesWithoutUpdate t \<le> missedFramesThreshold m) (tolerated d m cs rs)"
  by (simp add: kept_eq [OF assms] filter_fst_zip length_gated [OF assms] length_tolerated [OF assms])

lemma update_pool:
  assumes "cs \<noteq> []" and "fits (length (seed_pool m cs)) (length cs) (solved d m cs)"
  shows "\<exists>m' out. update d m cs rs = Some (m', out) \<and>
     kalmanTrackers m' =
       map (\<lambda>(t, a). if a \<noteq> -1 then gotUpdate (correct (cs ! nat a) (predict t))
                      else correct_no_obs (predict t))
         (zip (fst (kept d m cs rs)) (snd (kept d m cs rs))) @
       births d cs (centersWithoutKalman (length cs) (snd (kept d m cs rs)))"
  by (simp add: update_stages [OF assms] correct_all_append [OF length_kept [OF assms(2)]])

lemma kept_slot:
  assumes f: "fits (length (seed_pool m cs)) (length cs) (solved d m cs)"
    and i: "i < length (seed_pool m cs)"
    and alive: "numFramesWithoutUpdate (tolerated d m cs rs ! i) \<le> missedFramesThreshold m"
  shows "slot (missedFramesThreshold m) (tolerated d m cs rs) i < length (fst (kept d m cs rs)) \<and>
         fst (kept d m cs rs) ! slot (missedFramesThreshold m) (tolerated d m cs rs) i =
           tolerated d m cs rs ! i \<and>
         snd (kept d m cs rs) ! slot (missedFramesThreshold m) (tolerated d m cs rs) i =
           gated d m cs ! i"
  unfolding kept_def
  by (rule remove_dead_slot) (simp_all add: length_gated [OF f] length_tolerated [OF f] i alive)

lemma update_slot:
  assumes ne: "cs \<noteq> []"
    and f: "fits (length (seed_pool m cs)) (length cs) (solved d m cs)"
    and i: "i < length (seed_pool m cs)"
    and alive: "numFramesWithoutUpdate (tolerated d m cs rs ! i) \<le> missedFramesThreshold m"
  shows "\<exists>m' out. update d m cs rs = Some (m', out) \<and>
     slot (missedFramesThreshold m) (tolerated d m cs rs) i < length (kalmanTrackers m') \<and>
     kalmanTrackers m' ! slot (missedFramesThreshold m) (tolerated d m cs rs) i =
       (if gated d m cs ! i \<noteq> -1
        then gotUpdate (correct (cs ! nat (gated d m cs ! i)) (predict (tolerated d m cs rs ! i)))
        else correct_no_obs (predict (tolerated d m cs rs ! i)))"
proof -
  let ?k = "slot (missedFramesThreshold m) (tolerated d m cs rs) i"
  from update_pool [OF ne f, of rs] obtain m' out where
    u: "update d m cs rs = Some (m', out)" and
    p: "kalmanTrackers m' =
       map (\<lambda>(t, a). if a \<noteq> -1 then gotUpdate (correct (cs ! nat a) (predict t))
                      else correct_no_obs (predict t))
         (zip (fst (kept d m cs rs)) (snd (kept d m cs rs))) @
       births d cs (centersWithoutKalman (length cs) (snd (kept d m cs rs)))"
    by blast
  from kept_slot [OF f i alive] have
    k: "?k < length (fst (kept d m cs rs))" and
    t: "fst (kept d m cs rs) ! ?k = tolerated d m cs rs ! i" and
    a: "snd (kept d m cs rs) ! ?k = gated d m cs ! i"
    by simp_all
  have "?k < length (kalmanTrackers m')" using k by (simp add: p length_kept [OF f])
  moreover have "kalmanTrackers m' ! ?k =
       (if gated d m cs ! i \<noteq> -1
        then gotUpdate (correct (cs ! nat (gated d m cs ! i)) (predict (tolerated d m cs rs ! i)))
        else correct_no_obs (predict (tolerated d m cs rs ! i)))"
    using k t a by (simp add: p nth_append length_kept [OF f])
  ultimately show ?thesis using u by blast
qed

lemma tolerated_nth:
  assumes f: "fits (length (seed_pool m cs)) (length cs) (solved d m cs)"
    and i: "i < length (seed_pool m cs)"
  shows "tolerated d m cs rs ! i =
     (if gated d m cs ! i = -1
      then inside_any d rs (if solved d m cs ! i = -1 then noUpdateThisFrame (seed_pool m cs ! i)
                            else seed_pool m cs ! i)
      else seed_pool m cs ! i)"
proof -
  have g: "gated d m cs ! i \<noteq> -1 \<Longrightarrow> solved d m cs ! i \<noteq> -1"
    using i fits_length [OF f] by (simp add: gated_eq [OF f] split: if_splits)
  show ?thesis
    using i fits_length [OF f] g
    by (simp add: tolerated_eq [OF f] length_gated [OF f] length_after_gate [OF f]
        after_gate_pool [OF f])
qed

section \<open>Occlusion tolerance\<close>

lemma tolerated_gotUpdate:
  assumes f: "fits (length (seed_pool m cs)) (length cs) (solved d m cs)"
    and i: "i < length (seed_pool m cs)"
    and g: "gated d m cs ! i = -1"
    and b: "list_ex (\<lambda>r. contains r (toPoint (latestPrediction d (kf (seed_pool m cs ! i))))) rs"
  shows "tolerated d m cs rs ! i = gotUpdate (fst (after_gate d m cs) ! i)"
proof -
  have k: "kf (fst (after_gate d m cs) ! i) = kf (seed_pool m cs ! i)"
    using i fits_length [OF f] by (simp add: after_gate_pool [OF f])
  show ?thesis
    using i g b
    by (simp add: tolerated_eq [OF f] length_gated [OF f] length_after_gate [OF f]
        inside_any_iff k)
qed

text \<open>
  C8, as the code has it. In a call to \<open>update\<close> with detections, let filter \<open>i\<close> be
  unassigned after the gate, and let its latest prediction, rounded to a \<open>cv::Point\<close>
  (the conversion the call of \<open>contains\<close> makes), lie in some detection's bounding box.
  Then the filter gets \<open>gotUpdate\<close> in the bounding-box pass; and when the threshold of
  missed frames is not negative it stays in the pool (at the index the erase loop leaves
  it) and its counter of missed frames is 0 when the call returns, although no detection
  is paired with it. The solver's array is taken well-formed.
\<close>

theorem occlusion_tolerance_resets_counter:
  assumes "massCenters \<noteq> []"
    and "fits (length (seed_pool m massCenters)) (length massCenters) (solved d m massCenters)"
    and "i < length (seed_pool m massCenters)"
    and "gated d m massCenters ! i = -1"
    and "list_ex (\<lambda>r. contains r (toPoint (latestPrediction d (kf (seed_pool m massCenters ! i)))))
           boundingRects"
  shows "\<exists>m' out. update d m massCenters boundingRects = Some (m', out) \<and>
     tolerated d m massCenters boundingRects ! i =
       gotUpdate (fst (after_gate d m massCenters) ! i) \<and>
     (0 \<le> missedFramesThreshold m \<longrightarrow>
        slot (missedFramesThreshold m) (tolerated d m massCenters boundingRects) i
          < length (kalmanTrackers m') \<and>
        startPt (kf (kalmanTrackers m' !
           slot (missedFramesThreshold m) (tolerated d m massCenters boundingRects) i)) =
          startPt (kf (seed_pool m massCenters ! i)) \<and>
        numFramesWithoutUpdate (kalmanTrackers m' !
           slot (missedFramesThreshold m) (tolerated d m massCenters boundingRects) i) = 0)"
proof -
  note t = tolerated_gotUpdate [OF assms(2-5)]
  show ?thesis
  proof (cases "0 \<le> missedFramesThreshold m")
    case True
    then have alive: "numFramesWithoutUpdate (tolerated d m massCenters boundingRects ! i)
        \<le> missedFramesThreshold m"
      by (simp add: t)
    from update_slot [OF assms(1,2,3) alive] t show ?thesis
      using assms(4) kf_tolerated [OF assms(2,3), of boundingRects] by auto
  next
    case False
    with update_pool [OF assms(1,2), of boundingRects] t show ?thesis by auto
  qed
qed

text \<open>
  C9, as the code has it. A filter granted occlusion tolerance stays unassigned: the
  bounding-box pass changes neither the assignment array nor the state of its filter
  (\<open>gotUpdate\<close> touches the counter only). When the threshold of missed frames is not
  negative, the filter is in the pool after the erase loop with its entry of the array
  still -1, and in the update loop it gets \<open>predict()\<close> and then the \<open>correct()\<close>
  without an observation, so the calls made on it in the frame are exactly those two, and
  no \<open>correct\<close> with a detection's centroid. The solver's array is taken well-formed.
\<close>

theorem occlusion_tolerance_keeps_state:
  assumes "massCenters \<noteq> []"
    and "fits (length (seed_pool m massCenters)) (length massCenters) (solved d m massCenters)"
    and "i < length (seed_pool m massCenters)"
    and "gated d m massCenters ! i = -1"
    and "list_ex (\<lambda>r. contains r (toPoint (latestPrediction d (kf (seed_pool m massCenters ! i)))))
           boundingRects"
  shows "\<exists>m' out. update d m massCenters boundingRects = Some (m', out) \<and>
     kf (tolerated d m massCenters boundingRects ! i) = kf (seed_pool m massCenters ! i) \<and>
     (0 \<le> missedFramesThreshold m \<longrightarrow>
        snd (kept d m massCenters boundingRects) !
           slot (missedFramesThreshold m) (tolerated d m massCenters boundingRects) i = -1 \<and>
        kf (kalmanTrackers m' !
           slot (missedFramesThreshold m) (tolerated d m massCenters boundingRects) i) =
          (kf (seed_pool m massCenters ! i))
            \<lparr>calls := calls (kf (seed_pool m massCenters ! i)) @ [Predict, CorrectNoObs]\<rparr>)"
proof -
  note t = tolerated_gotUpdate [OF assms(2-5)]
  note k = kf_tolerated [OF assms(2,3), of boundingRects]
  show ?thesis
  proof (cases "0 \<le> missedFramesThreshold m")
    case True
    then have alive: "numFramesWithoutUpdate (tolerated d m massCenters boundingRects ! i)
        \<le> missedFramesThreshold m"
      by (simp add: t)
    have a: "snd (kept d m massCenters boundingRects) !
          slot (missedFramesThreshold m) (tolerated d m massCenters boundingRects) i = -1"
      using kept_slot [OF assms(2,3) alive] assms(4) by simp
    from update_slot [OF assms(1,2,3) alive] a k show ?thesis
      using assms(4) by auto
  next
    case False
    with update_pool [OF assms(1,2), of boundingRects] k show ?thesis by auto
  qed
qed

section \<open>A frame without detections\<close>

text \<open>
  C5. With an empty detection list \<open>update\<close> returns whatever the solver is (none is
  called and no cost matrix is built): every filter of the pool gets
  \<open>noUpdateThisFrame\<close>, those whose counter is then past the threshold are dropped, the
  remaining ones whose lifetime is past \<open>lifetimeThreshold\<close> are predicted and their
  predictions are the output, in pool order; the pool after the call holds the remaining
  filters only, so none is created.
\<close>

theorem update_without_detections:
  "update d m [] boundingRects =
     (let aged = filter (\<lambda>t. numFramesWithoutUpdate t \<le> missedFramesThreshold m)
                   (map noUpdateThisFrame (kalmanTrackers m))
      in Some (m\<lparr>kalmanTrackers :=
                   map (\<lambda>t. if getLifetime d (kf t) > lifetimeThreshold m then predict t else t) aged\<rparr>,
               map (\<lambda>t. toPoint (latestPrediction d (kf (predict t))))
                 (filter (\<lambda>t. getLifetime d (kf t) > lifetimeThreshold m) aged))) \<and>
   update (d\<lparr>Solve := s\<rparr>) m [] boundingRects = update d m [] boundingRects"
proof -
  have "predict_visible d lthr ts =
      (map (\<lambda>t. if getLifetime d (kf t) > lthr then predict t else t) ts,
       map (\<lambda>t. toPoint (latestPrediction d (kf (predict t))))
         (filter (\<lambda>t. getLifetime d (kf t) > lthr) ts))" for lthr ts
    using predict_visible_pool [of d lthr ts] predict_visible_out [of d lthr ts]
    by (metis prod.collapse)
  moreover have "predict_visible (d\<lparr>Solve := s\<rparr>) lthr ts = predict_visible d lthr ts" for lthr ts
    by (induction ts) (simp_all split: prod.splits)
  ultimately show ?thesis
    by (simp add: update_def age_all_filter Let_def)
qed

lemma step_counter:
  "numFramesWithoutUpdate t \<le> thr \<Longrightarrow> 0 \<le> thr \<Longrightarrow>
   numFramesWithoutUpdate
     (if a \<noteq> -1 then gotUpdate (correct c (predict t)) else correct_no_obs (predict t)) \<le> thr"
  by simp

lemma births_counter: "t \<in> set (births d cs free) \<Longrightarrow> numFramesWithoutUpdate t = 0"
  by (auto simp: births_def KalmanTracker1_def KalmanTracker_def)

lemma births_calls: "t \<in> set (births d cs free) \<Longrightarrow> calls (kf t) = []"
  by (auto simp: births_def KalmanTracker1_def KalmanTracker_def)

lemma kept_alive:
  assumes "fits (length (seed_pool m cs)) (length cs) (solved d m cs)"
    and "t \<in> set (fst (kept d m cs rs))"
  shows "numFramesWithoutUpdate t \<le> missedFramesThreshold m"
  using assms(2) by (simp add: fst_kept [OF assms(1)])

lemma zip_kept:
  assumes "fits (length (seed_pool m cs)) (length cs) (solved d m cs)"
  shows "zip (fst (kept d m cs rs)) (snd (kept d m cs rs)) =
     filter (\<lambda>(t, a). numFramesWithoutUpdate t \<le> missedFramesThreshold m)
       (zip (tolerated d m cs rs) (gated d m cs))"
  by (simp add: kept_eq [OF assms] zip_map_fst_snd)

lemma predict_visible_eq:
  "predict_visible d lthr ts =
     (map (\<lambda>t. if getLifetime d (kf t) > lthr then predict t else t) ts,
      map (\<lambda>t. toPoint (latestPrediction d (kf (predict t))))
        (filter (\<lambda>t. getLifetime d (kf t) > lthr) ts))"
  using predict_visible_pool [of d lthr ts] predict_visible_out [of d lthr ts]
  by (metis prod.collapse)

lemma update_Nil:
  "update d m [] boundingRects =
     Some (m\<lparr>kalmanTrackers :=
              map (\<lambda>t. if getLifetime d (kf t) > lifetimeThreshold m then predict t else t)
                (filter (\<lambda>t. numFramesWithoutUpdate t \<le> missedFramesThreshold m)
                   (map noUpdateThisFrame (kalmanTrackers m)))\<rparr>,
           map (\<lambda>t. toPoint (latestPrediction d (kf (predict t))))
             (filter (\<lambda>t. getLifetime d (kf t) > lifetimeThreshold m)
                (filter (\<lambda>t. numFramesWithoutUpdate t \<le> missedFramesThreshold m)
                   (map noUpdateThisFrame (kalmanTrackers m)))))"
  by (simp add: update_def predict_visible_eq age_all_filter)

section \<open>The bound on the counter of missed frames\<close>

text \<open>
  C4, as the code has it. \<open>update\<close> returns, and in a frame without detections, or
  when \<open>missedFramesThreshold\<close> is not negative, every filter of the pool then has its
  counter of missed frames at most \<open>missedFramesThreshold\<close>. In a frame without
  detections the pool is what remains of the old one after every filter was told it got
  no update and those past the threshold were dropped. In a frame with detections the
  erase loop keeps exactly the filters whose counter is within the threshold, and it keeps
  the assignment array aligned: the array has the length of the remaining pool and every
  remaining filter is still beside its own entry. The solver's array is taken
  well-formed.
\<close>

theorem update_bounds_missed_frames:
  assumes "massCenters = [] \<or>
     fits (length (seed_pool m massCenters)) (length massCenters) (solved d m massCenters)"
  shows "\<exists>m' out. update d m massCenters boundingRects = Some (m', out) \<and>
     (massCenters = [] \<or> 0 \<le> missedFramesThreshold m \<longrightarrow>
        (\<forall>t \<in> set (kalmanTrackers m'). numFramesWithoutUpdate t \<le> missedFramesThreshold m)) \<and>
     (massCenters = [] \<longrightarrow>
        kalmanTrackers m' =
          map (\<lambda>t. if getLifetime d (kf t) > lifetimeThreshold m then predict t else t)
            (filter (\<lambda>t. numFramesWithoutUpdate t \<le> missedFramesThreshold m)
               (map noUpdateThisFrame (kalmanTrackers m)))) \<and>
     (massCenters \<noteq> [] \<longrightarrow>
        fst (kept d m massCenters boundingRects) =
          filter (\<lambda>t. numFramesWithoutUpdate t \<le> missedFramesThreshold m)
            (tolerated d m massCenters boundingRects) \<and>
        length (snd (kept d m massCenters boundingRects)) =
          length (fst (kept d m massCenters boundingRects)) \<and>
        zip (fst (kept d m massCenters boundingRects)) (snd (kept d m massCenters boundingRects)) =
          filter (\<lambda>(t, a). numFramesWithoutUpdate t \<le> missedFramesThreshold m)
            (zip (tolerated d m massCenters boundingRects) (gated d m massCenters)))"
proof (cases "massCenters = []")
  case True
  show ?thesis
    by (auto simp: True update_Nil)
next
  case False
  with assms have
    f: "fits (length (seed_pool m massCenters)) (length massCenters) (solved d m massCenters)"
    by simp
  from update_pool [OF False f, of boundingRects] obtain m' out where
    u: "update d m massCenters boundingRects = Some (m', out)" and
    p: "kalmanTrackers m' =
       map (\<lambda>(t, a). if a \<noteq> -1 then gotUpdate (correct (massCenters ! nat a) (predict t))
                      else correct_no_obs (predict t))
         (zip (fst (kept d m massCenters boundingRects)) (snd (kept d m massCenters boundingRects))) @
       births d massCenters
         (centersWithoutKalman (length massCenters) (snd (kept d m massCenters boundingRects)))"
    by blast
  have "numFramesWithoutUpdate t \<le> missedFramesThreshold m"
    if thr: "0 \<le> missedFramesThreshold m" and "t \<in> set (kalmanTrackers m')" for t
  proof -
    from that(2) [unfolded p] consider
      (old) t0 a where "(t0, a) \<in> set (zip (fst (kept d m massCenters boundingRects))
                                          (snd (kept d m massCenters boundingRects)))"
        "t = (if a \<noteq> -1 then gotUpdate (correct (massCenters ! nat a) (predict t0))
              else correct_no_obs (predict t0))"
      | (new) "t \<in> set (births d massCenters
         (centersWithoutKalman (length massCenters) (snd (kept d m massCenters boundingRects))))"
      by auto
    then show ?thesis
    proof cases
      case old
      from old(1) have "t0 \<in> set (fst (kept d m massCenters boundingRects))"
        by (rule set_zip_leftD)
      from kept_alive [OF f this] thr show ?thesis
        unfolding old(2) by (rule step_counter)
    next
      case new
      then show ?thesis using thr by (simp add: births_counter)
    qed
  qed
  with u False show ?thesis
    using fst_kept [OF f, of boundingRects] length_kept [OF f, of boundingRects]
      zip_kept [OF f, of boundingRects]
    by auto
qed

section \<open>The tracker on the small configuration\<close>

lemmas run_simps =
  d0_def m_init_def m0_def m1_def m2_def box_far_def box_wide_def seed_pool_def costMatrix_def pair_in_order_def fits_def out_of_range_def solved_def
  KalmanTracker_def KalmanTracker1_def frameDimension_def gated_def after_gate_def
  tolerated_def kept_def slot_def centersWithoutKalman_def births_def visible_def
  contains_def toPoint_def far_apart Let_def
  m3_def m3_unseen_def m3_covered_def m3_quiet_def m_edge_def m_edge1_def
  m_neg_init_def m_neg1_def m_neg2_def box_near_def

lemma toPoint_numeral [simp]: "toPoint (numeral a, numeral b) = (numeral a, numeral b)"
  by (simp add: toPoint_def)

lemma first_frame: "update d0 m_init [(10, 10)] [box_far] = Some (m0, [(10, 10)])"
  by (simp add: update_def run_simps cv_norm_def predict_def correct_def gotUpdate_def called_def)

lemma example_run: "update d0 m0 [(400, 400)] [box_far] = Some (m1, [(10, 10)])"
  by (simp add: update_def run_simps predict_def correct_no_obs_def called_def)

lemma example_quiet_run: "update d0 m1 [] [] = Some (m2, [(10, 10)])"
  by (simp add: update_Nil run_simps noUpdateThisFrame_def predict_def called_def)

lemma cv_norm_same [simp]: "cv_norm p p = 0"
  by (simp add: cv_norm_def)

lemma cvRound_edge: "cvRound (2248 / 5) = 450"
  by (simp add: cvRound_def Let_def)

lemma m3_unseen_run: "update d0 m3 [(10, 10)] [box_near] = Some (m3_unseen, [(10, 10)])"
  by (simp add: update_def run_simps predict_def correct_def gotUpdate_def noUpdateThisFrame_def
      called_def)

lemma m3_covered_run:
  "update d0 m3 [(10, 10)] [box_wide] = Some (m3_covered, [(10, 10), (200, 200)])"
  by (simp add: update_def run_simps predict_def correct_def correct_no_obs_def gotUpdate_def
      noUpdateThisFrame_def called_def)

lemma m3_quiet_run: "update d0 m3 [] [] = Some (m3_quiet, [(10, 10)])"
  by (simp add: update_Nil run_simps noUpdateThisFrame_def predict_def called_def)

lemma m_edge_run:
  "update d0 m_edge [(10, 10)] [box_wide] = Some (m_edge1, [(10, 10), (450, 10)])"
  by (simp add: update_def run_simps predict_def correct_def correct_no_obs_def gotUpdate_def
      noUpdateThisFrame_def called_def cvRound_edge)

lemma m_neg_first_run: "update d0 m_neg_init [(10, 10)] [box_near] = Some (m_neg1, [])"
  by (simp add: update_def run_simps predict_def correct_def gotUpdate_def called_def)

lemma m_neg_second_run: "update d0 m_neg1 [(400, 400)] [box_wide] = Some (m_neg2, [])"
  by (simp add: update_def run_simps predict_def correct_def gotUpdate_def called_def)

text \<open>
  The counter is reset on \<open>m3\<close> and the frame with the wide box: the solver leaves the
  second filter alone, the gate loop puts its counter at 6, the box holds its prediction,
  and its counter is 0 when the call returns. With the small box the same filter is
  erased.
\<close>

theorem occlusion_tolerance_resets_counter_witness:
  "[(10, 10)] \<noteq> ([] :: point2f list) \<and>
   fits (length (seed_pool m3 [(10, 10)])) (length [(10 :: real, 10 :: real)])
     (solved d0 m3 [(10, 10)]) \<and>
   1 < length (seed_pool m3 [(10, 10)]) \<and>
   gated d0 m3 [(10, 10)] ! 1 = -1 \<and>
   list_ex (\<lambda>r. contains r (toPoint (latestPrediction d0 (kf (seed_pool m3 [(10, 10)] ! 1)))))
     [box_wide] \<and>
   numFramesWithoutUpdate (fst (after_gate d0 m3 [(10, 10)]) ! 1) = 6 \<and>
   numFramesWithoutUpdate (tolerated d0 m3 [(10, 10)] [box_wide] ! 1) = 0 \<and>
   0 \<le> missedFramesThreshold m3 \<and>
   update d0 m3 [(10, 10)] [box_wide] = Some (m3_covered, [(10, 10), (200, 200)]) \<and>
   length (kalmanTrackers m3_covered) = 2 \<and>
   startPt (kf (kalmanTrackers m3_covered ! 1)) = (200, 200) \<and>
   numFramesWithoutUpdate (kalmanTrackers m3_covered ! 1) = 0 \<and>
   update d0 m3 [(10, 10)] [box_near] = Some (m3_unseen, [(10, 10)]) \<and>
   length (kalmanTrackers m3_unseen) = 1"
proof -
  let ?cs = "[(10, 10)] :: point2f list"
  let ?rs = "[box_wide]"
  have h1: "?cs \<noteq> []" by simp
  have h2: "fits (length (seed_pool m3 ?cs)) (length ?cs) (solved d0 m3 ?cs)"
    by (simp add: run_simps)
  have h3: "1 < length (seed_pool m3 ?cs)" by (simp add: run_simps)
  have h4: "gated d0 m3 ?cs ! 1 = -1" by (simp add: run_simps)
  have h5: "list_ex (\<lambda>r. contains r (toPoint (latestPrediction d0 (kf (seed_pool m3 ?cs ! 1))))) ?rs"
    by (simp add: run_simps)
  have thr: "0 \<le> missedFramesThreshold m3" by (simp add: run_simps)
  have before: "numFramesWithoutUpdate (fst (after_gate d0 m3 ?cs) ! 1) = 6"
    by (simp add: run_simps)
  have seed: "startPt (kf (seed_pool m3 ?cs ! 1)) = (200, 200)" by (simp add: run_simps)
  from occlusion_tolerance_resets_counter [OF h1 h2 h3 h4 h5] thr obtain m' out where
    u: "update d0 m3 ?cs ?rs = Some (m', out)" and
    t: "tolerated d0 m3 ?cs ?rs ! 1 = gotUpdate (fst (after_gate d0 m3 ?cs) ! 1)" and
    l: "slot (missedFramesThreshold m3) (tolerated d0 m3 ?cs ?rs) 1 < length (kalmanTrackers m')" and
    p: "startPt (kf (kalmanTrackers m' ! slot (missedFramesThreshold m3) (tolerated d0 m3 ?cs ?rs) 1)) =
          startPt (kf (seed_pool m3 ?cs ! 1))" and
    c: "numFramesWithoutUpdate
          (kalmanTrackers m' ! slot (missedFramesThreshold m3) (tolerated d0 m3 ?cs ?rs) 1) = 0"
    by blast
  from u have m': "m' = m3_covered" by (simp add: m3_covered_run)
  have s: "slot (missedFramesThreshold m3) (tolerated d0 m3 ?cs ?rs) 1 = 1"
    by (simp add: run_simps)
  from t have after: "numFramesWithoutUpdate (tolerated d0 m3 ?cs ?rs ! 1) = 0" by simp
  have n: "length (kalmanTrackers m3_covered) = 2" "length (kalmanTrackers m3_unseen) = 1"
    by (simp_all add: run_simps)
  from p c have "startPt (kf (kalmanTrackers m3_covered ! 1)) = (200, 200)"
    and "numFramesWithoutUpdate (kalmanTrackers m3_covered ! 1) = 0"
    unfolding m' s seed by simp_all
  with h1 h2 h3 h4 h5 thr before after n m3_covered_run m3_unseen_run show ?thesis
    by (simp only: simp_thms)
qed

text \<open>
  The claim as it is worded fails where the rounding decides. The second filter of
  \<open>m_edge\<close> predicts (449.6, 10), a point of the box that spans 0 to 450 in both
  directions; the solver leaves the filter alone; the point is rounded to (450, 10), which
  \<open>contains\<close> rejects, and the counter is 1 when the call returns. And with the
  threshold of missed frames at -1, the filter of \<open>m_neg1\<close> is unassigned after the
  gate, the box holds its prediction, and the filter is erased in the same call: the pool
  then holds only the filter born at (400, 400).
\<close>

theorem occlusion_tolerance_misses_rounded_point:
  "latestPrediction d0 (kf (kalmanTrackers m_edge ! 1)) = (2248 / 5, 10) \<and>
   real_of_int (rect_x box_wide) \<le> 2248 / 5 \<and>
   2248 / 5 < real_of_int (rect_x box_wide + rect_width box_wide) \<and>
   real_of_int (rect_y box_wide) \<le> 10 \<and>
   10 < real_of_int (rect_y box_wide + rect_height box_wide) \<and>
   gated d0 m_edge [(10, 10)] ! 1 = -1 \<and>
   toPoint (2248 / 5, 10) = (450, 10) \<and>
   \<not> contains box_wide (450, 10) \<and>
   numFramesWithoutUpdate (tolerated d0 m_edge [(10, 10)] [box_wide] ! 1) = 1 \<and>
   update d0 m_edge [(10, 10)] [box_wide] = Some (m_edge1, [(10, 10), (450, 10)]) \<and>
   numFramesWithoutUpdate (kalmanTrackers m_edge1 ! 1) = 1 \<and>
   missedFramesThreshold m_neg1 = -1 \<and>
   gated d0 m_neg1 [(400, 400)] ! 0 = -1 \<and>
   contains box_wide (toPoint (latestPrediction d0 (kf (kalmanTrackers m_neg1 ! 0)))) \<and>
   update d0 m_neg1 [(400, 400)] [box_wide] = Some (m_neg2, []) \<and>
   map (\<lambda>t. startPt (kf t)) (kalmanTrackers m_neg1) = [(10, 10)] \<and>
   map (\<lambda>t. startPt (kf t)) (kalmanTrackers m_neg2) = [(400, 400)]"
proof -
  have a: "latestPrediction d0 (kf (kalmanTrackers m_edge ! 1)) = (2248 / 5, 10)"
    "real_of_int (rect_x box_wide) \<le> 2248 / 5"
    "2248 / 5 < real_of_int (rect_x box_wide + rect_width box_wide)"
    "real_of_int (rect_y box_wide) \<le> 10"
    "10 < real_of_int (rect_y box_wide + rect_height box_wide)"
    by (simp_all add: run_simps)
  have b: "gated d0 m_edge [(10, 10)] ! 1 = -1"
    "toPoint (2248 / 5, 10) = (450, 10)"
    "\<not> contains box_wide (450, 10)"
    "numFramesWithoutUpdate (tolerated d0 m_edge [(10, 10)] [box_wide] ! 1) = 1"
    "numFramesWithoutUpdate (kalmanTrackers m_edge1 ! 1) = 1"
    by (simp_all add: run_simps cvRound_edge noUpdateThisFrame_def)
  have c: "missedFramesThreshold m_neg1 = -1"
    "gated d0 m_neg1 [(400, 400)] ! 0 = -1"
    "contains box_wide (toPoint (latestPrediction d0 (kf (kalmanTrackers m_neg1 ! 0))))"
    "map (\<lambda>t. startPt (kf t)) (kalmanTrackers m_neg1) = [(10, 10)]"
    "map (\<lambda>t. startPt (kf t)) (kalmanTrackers m_neg2) = [(400, 400)]"
    by (simp_all add: run_simps)
  from a b c m_edge_run m_neg_second_run show ?thesis by (simp only: simp_thms)
qed

text \<open>
  The state is left alone on the same frame: the box of the detection at (10, 10) holds the
  prediction of the second filter of \<open>m3\<close>, its entry of the array is -1 after the
  erase loop, and the calls made on it are \<open>predict()\<close> and the \<open>correct()\<close> without
  an observation.
\<close>

theorem occlusion_tolerance_keeps_state_witness:
  "[(10, 10)] \<noteq> ([] :: point2f list) \<and>
   fits (length (seed_pool m3 [(10, 10)])) (length [(10 :: real, 10 :: real)])
     (solved d0 m3 [(10, 10)]) \<and>
   1 < length (seed_pool m3 [(10, 10)]) \<and>
   gated d0 m3 [(10, 10)] ! 1 = -1 \<and>
   list_ex (\<lambda>r. contains r (toPoint (latestPrediction d0 (kf (seed_pool m3 [(10, 10)] ! 1)))))
     [box_wide] \<and>
   0 \<le> missedFramesThreshold m3 \<and>
   kf (tolerated d0 m3 [(10, 10)] [box_wide] ! 1) = kf (kalmanTrackers m3 ! 1) \<and>
   snd (kept d0 m3 [(10, 10)] [box_wide]) ! 1 = -1 \<and>
   update d0 m3 [(10, 10)] [box_wide] = Some (m3_covered, [(10, 10), (200, 200)]) \<and>
   calls (kf (kalmanTrackers m3 ! 1)) = [] \<and>
   calls (kf (kalmanTrackers m3_covered ! 1)) = [Predict, CorrectNoObs]"
proof -
  let ?cs = "[(10, 10)] :: point2f list"
  let ?rs = "[box_wide]"
  have h1: "?cs \<noteq> []" by simp
  have h2: "fits (length (seed_pool m3 ?cs)) (length ?cs) (solved d0 m3 ?cs)"
    by (simp add: run_simps)
  have h3: "1 < length (seed_pool m3 ?cs)" by (simp add: run_simps)
  have h4: "gated d0 m3 ?cs ! 1 = -1" by (simp add: run_simps)
  have h5: "list_ex (\<lambda>r. contains r (toPoint (latestPrediction d0 (kf (seed_pool m3 ?cs ! 1))))) ?rs"
    by (simp add: run_simps)
  have thr: "0 \<le> missedFramesThreshold m3" by (simp add: run_simps)
  have seed: "seed_pool m3 ?cs ! 1 = kalmanTrackers m3 ! 1"
    "calls (kf (kalmanTrackers m3 ! 1)) = []"
    by (simp_all add: run_simps)
  from occlusion_tolerance_keeps_state [OF h1 h2 h3 h4 h5] thr obtain m' out where
    u: "update d0 m3 ?cs ?rs = Some (m', out)" and
    k: "kf (tolerated d0 m3 ?cs ?rs ! 1) = kf (seed_pool m3 ?cs ! 1)" and
    a: "snd (kept d0 m3 ?cs ?rs) ! slot (missedFramesThreshold m3) (tolerated d0 m3 ?cs ?rs) 1 = -1" and
    c: "kf (kalmanTrackers m' ! slot (missedFramesThreshold m3) (tolerated d0 m3 ?cs ?rs) 1) =
          (kf (seed_pool m3 ?cs ! 1))
            \<lparr>calls := calls (kf (seed_pool m3 ?cs ! 1)) @ [Predict, CorrectNoObs]\<rparr>"
    by blast
  from u have m': "m' = m3_covered" by (simp add: m3_covered_run)
  have s: "slot (missedFramesThreshold m3) (tolerated d0 m3 ?cs ?rs) 1 = 1"
    by (simp add: run_simps)
  from c have "calls (kf (kalmanTrackers m3_covered ! 1)) = [Predict, CorrectNoObs]"
    unfolding m' s seed by simp
  with h1 h2 h3 h4 h5 thr k [unfolded seed] a [unfolded s] seed(2) m3_covered_run show ?thesis
    by (simp only: simp_thms)
qed

text \<open>
  The claim fails when the threshold of missed frames is negative. The filter of
  \<open>m_neg1\<close> is unassigned after the gate and the box holds its prediction, so it is
  granted the tolerance and its counter is 0; that is above -1, the erase loop removes
  it, the update loop runs over an empty array, and no call is made on it: the pool
  afterwards holds only the filter born at (400, 400), on which no call was made either.
\<close>

theorem tolerated_filter_gets_no_correct:
  "missedFramesThreshold m_neg1 = -1 \<and>
   map (\<lambda>t. (startPt (kf t), calls (kf t))) (kalmanTrackers m_neg1) = [((10, 10), [])] \<and>
   gated d0 m_neg1 [(400, 400)] ! 0 = -1 \<and>
   contains box_wide (toPoint (latestPrediction d0 (kf (kalmanTrackers m_neg1 ! 0)))) \<and>
   numFramesWithoutUpdate (tolerated d0 m_neg1 [(400, 400)] [box_wide] ! 0) = 0 \<and>
   kept d0 m_neg1 [(400, 400)] [box_wide] = ([], []) \<and>
   update d0 m_neg1 [(400, 400)] [box_wide] = Some (m_neg2, []) \<and>
   map (\<lambda>t. (startPt (kf t), calls (kf t))) (kalmanTrackers m_neg2) = [((400, 400), [])]"
proof -
  have a: "missedFramesThreshold m_neg1 = -1"
    "map (\<lambda>t. (startPt (kf t), calls (kf t))) (kalmanTrackers m_neg1) = [((10, 10), [])]"
    "gated d0 m_neg1 [(400, 400)] ! 0 = -1"
    "contains box_wide (toPoint (latestPrediction d0 (kf (kalmanTrackers m_neg1 ! 0))))"
    "map (\<lambda>t. (startPt (kf t), calls (kf t))) (kalmanTrackers m_neg2) = [((400, 400), [])]"
    by (simp_all add: run_simps)
  have b: "numFramesWithoutUpdate (tolerated d0 m_neg1 [(400, 400)] [box_wide] ! 0) = 0"
    "kept d0 m_neg1 [(400, 400)] [box_wide] = ([], [])"
    by (simp_all add: run_simps gotUpdate_def)
  from a b m_neg_second_run show ?thesis by (simp only: simp_thms)
qed

text \<open>
  The bound on \<open>m3\<close>, whose second filter has gone five frames without an
  update. In the frame with the detection at (10, 10) and the small box the gate loop
  puts its counter at 6 and the erase loop removes it, together with its entry of the
  array; in a frame without detections it is removed as well.
\<close>

theorem update_bounds_missed_frames_witness:
  "([(10, 10)] = ([] :: point2f list) \<or>
      fits (length (seed_pool m3 [(10, 10)])) (length [(10 :: real, 10 :: real)])
        (solved d0 m3 [(10, 10)])) \<and>
   missedFramesThreshold m3 = 5 \<and>
   map numFramesWithoutUpdate (kalmanTrackers m3) = [0, 5] \<and>
   map numFramesWithoutUpdate (tolerated d0 m3 [(10, 10)] [box_near]) = [0, 6] \<and>
   gated d0 m3 [(10, 10)] = [0, -1] \<and>
   map numFramesWithoutUpdate (fst (kept d0 m3 [(10, 10)] [box_near])) = [0] \<and>
   snd (kept d0 m3 [(10, 10)] [box_near]) = [0] \<and>
   update d0 m3 [(10, 10)] [box_near] = Some (m3_unseen, [(10, 10)]) \<and>
   list_all (\<lambda>t. numFramesWithoutUpdate t \<le> 5) (kalmanTrackers m3_unseen) \<and>
   length (kalmanTrackers m3_unseen) = 1 \<and>
   update d0 m3 [] [] = Some (m3_quiet, [(10, 10)]) \<and>
   list_all (\<lambda>t. numFramesWithoutUpdate t \<le> 5) (kalmanTrackers m3_quiet) \<and>
   length (kalmanTrackers m3_quiet) = 1"
proof -
  let ?cs = "[(10, 10)] :: point2f list"
  let ?rs = "[box_near]"
  have h: "?cs = [] \<or> fits (length (seed_pool m3 ?cs)) (length ?cs) (solved d0 m3 ?cs)"
    by (simp add: run_simps)
  have thr: "missedFramesThreshold m3 = 5" by (simp add: run_simps)
  have pool: "map numFramesWithoutUpdate (kalmanTrackers m3) = [0, 5]" by (simp add: run_simps)
  have tol: "map numFramesWithoutUpdate (tolerated d0 m3 ?cs ?rs) = [0, 6]"
    by (simp add: run_simps noUpdateThisFrame_def)
  have g: "gated d0 m3 ?cs = [0, -1]" by (simp add: run_simps)
  from update_bounds_missed_frames [OF h, of ?rs] obtain m' out where
    u: "update d0 m3 ?cs ?rs = Some (m', out)" and
    b: "\<forall>t \<in> set (kalmanTrackers m'). numFramesWithoutUpdate t \<le> missedFramesThreshold m3" and
    k: "fst (kept d0 m3 ?cs ?rs) =
          filter (\<lambda>t. numFramesWithoutUpdate t \<le> missedFramesThreshold m3) (tolerated d0 m3 ?cs ?rs)" and
    l: "length (snd (kept d0 m3 ?cs ?rs)) = length (fst (kept d0 m3 ?cs ?rs))" and
    z: "zip (fst (kept d0 m3 ?cs ?rs)) (snd (kept d0 m3 ?cs ?rs)) =
          filter (\<lambda>(t, a). numFramesWithoutUpdate t \<le> missedFramesThreshold m3)
            (zip (tolerated d0 m3 ?cs ?rs) (gated d0 m3 ?cs))"
    unfolding thr by auto
  from u have m': "m' = m3_unseen" by (simp add: m3_unseen_run)
  from b have b1: "list_all (\<lambda>t. numFramesWithoutUpdate t \<le> 5) (kalmanTrackers m3_unseen)"
    unfolding m' thr list_all_iff .
  have "map numFramesWithoutUpdate (fst (kept d0 m3 ?cs ?rs)) =
      filter (\<lambda>c. c \<le> 5) (map numFramesWithoutUpdate (tolerated d0 m3 ?cs ?rs))"
    unfolding k thr by (simp add: filter_map comp_def)
  then have k1: "map numFramesWithoutUpdate (fst (kept d0 m3 ?cs ?rs)) = [0]"
    unfolding tol by simp
  have k2: "snd (kept d0 m3 ?cs ?rs) = [0]" by (simp add: run_simps noUpdateThisFrame_def)
  from update_bounds_missed_frames [of "[]" m3 d0 "[]"] obtain m'' out' where
    u2: "update d0 m3 [] [] = Some (m'', out')" and
    b2: "\<forall>t \<in> set (kalmanTrackers m''). numFramesWithoutUpdate t \<le> missedFramesThreshold m3"
    by auto
  from u2 have m'': "m'' = m3_quiet" by (simp add: m3_quiet_run)
  from b2 have b3: "list_all (\<lambda>t. numFramesWithoutUpdate t \<le> 5) (kalmanTrackers m3_quiet)"
    unfolding m'' thr list_all_iff .
  have n: "length (kalmanTrackers m3_unseen) = 1" "length (kalmanTrackers m3_quiet) = 1"
    by (simp_all add: run_simps)
  from h thr pool tol g k1 k2 b1 b3 n m3_unseen_run m3_quiet_run show ?thesis
    by (simp only: simp_thms)
qed

text \<open>
  The claim fails when the threshold of missed frames is negative. With the threshold at
  -1 and an empty pool, a frame with one detection leaves a filter in the pool whose
  counter, 0, is above the threshold: the filter seeded for the detection is erased, and
  the one born for the detection after the erase loop stays.
\<close>

theorem newborn_counter_above_negative_threshold:
  "missedFramesThreshold m_neg_init = -1 \<and>
   kalmanTrackers m_neg_init = [] \<and>
   update d0 m_neg_init [(10, 10)] [box_near] = Some (m_neg1, []) \<and>
   missedFramesThreshold m_neg1 = -1 \<and>
   map numFramesWithoutUpdate (kalmanTrackers m_neg1) = [0] \<and>
   \<not> list_all (\<lambda>t. numFramesWithoutUpdate t \<le> missedFramesThreshold m_neg1)
        (kalmanTrackers m_neg1)"
proof -
  have "missedFramesThreshold m_neg_init = -1" "kalmanTrackers m_neg_init = []"
    "missedFramesThreshold m_neg1 = -1"
    "map numFramesWithoutUpdate (kalmanTrackers m_neg1) = [0]"
    "\<not> list_all (\<lambda>t. numFramesWithoutUpdate t \<le> missedFramesThreshold m_neg1)
        (kalmanTrackers m_neg1)"
    by (simp_all add: run_simps)
  with m_neg_first_run show ?thesis by (simp only: simp_thms)
qed

section \<open>Which filters are predicted\<close>

lemma predictions_step [simp]:
  "predictions (predict t) = predictions t + 1"
  "predictions (correct p t) = predictions t"
  "predictions (correct_no_obs t) = predictions t"
  "predictions (gotUpdate t) = predictions t"
  "predictions (noUpdateThisFrame t) = predictions t"
  by (simp_all add: predictions_def)

lemma predictions_tolerated:
  assumes "fits (length (seed_pool m cs)) (length cs) (solved d m cs)"
    and "i < length (seed_pool m cs)"
  shows "predictions (tolerated d m cs rs ! i) = predictions (seed_pool m cs ! i)"
  by (simp add: predictions_def kf_tolerated [OF assms])

lemma update_newborn:
  assumes "cs \<noteq> []" and "fits (length (seed_pool m cs)) (length cs) (solved d m cs)"
  shows "\<exists>m' out. update d m cs rs = Some (m', out) \<and>
     length (kalmanTrackers m') =
       length (fst (kept d m cs rs)) +
       length (centersWithoutKalman (length cs) (snd (kept d m cs rs))) \<and>
     drop (length (fst (kept d m cs rs))) (kalmanTrackers m') =
       births d cs (centersWithoutKalman (length cs) (snd (kept d m cs rs)))"
  using update_pool [OF assms, of rs]
  by (auto simp: length_kept [OF assms(2)] births_def)

text \<open>
  C2, as the code has it. In a call with detections, \<open>predict()\<close> is called exactly once
  on every filter that was in the pool when the assignment was computed (the filters seeded
  into an empty pool at the start of the call among them) and that the erase loop keeps;
  the filters born later in the call for the unassigned detections stand behind them in
  the pool and get no \<open>predict()\<close> in that call. In a call without detections,
  \<open>predict()\<close> is called exactly once on every remaining filter whose lifetime is past
  \<open>lifetimeThreshold\<close>.
\<close>

theorem predict_once_per_assigned_survivor:
  assumes "massCenters = [] \<or>
     fits (length (seed_pool m massCenters)) (length massCenters) (solved d m massCenters)"
  shows "\<exists>m' out. update d m massCenters boundingRects = Some (m', out) \<and>
     (massCenters \<noteq> [] \<longrightarrow>
        length (kalmanTrackers m') =
          length (fst (kept d m massCenters boundingRects)) +
          length (centersWithoutKalman (length massCenters)
                    (snd (kept d m massCenters boundingRects))) \<and>
        (\<forall>i < length (seed_pool m massCenters).
           numFramesWithoutUpdate (tolerated d m massCenters boundingRects ! i)
             \<le> missedFramesThreshold m \<longrightarrow>
           slot (missedFramesThreshold m) (tolerated d m massCenters boundingRects) i
             < length (fst (kept d m massCenters boundingRects)) \<and>
           predictions (kalmanTrackers m' !
              slot (missedFramesThreshold m) (tolerated d m massCenters boundingRects) i) =
             predictions (seed_pool m massCenters ! i) + 1) \<and>
        (\<forall>k. length (fst (kept d m massCenters boundingRects)) \<le> k \<and>
             k < length (kalmanTrackers m') \<longrightarrow>
           predictions (kalmanTrackers m' ! k) = 0)) \<and>
     (massCenters = [] \<longrightarrow>
        (let aged = filter (\<lambda>t. numFramesWithoutUpdate t \<le> missedFramesThreshold m)
                      (map noUpdateThisFrame (kalmanTrackers m))
         in length (kalmanTrackers m') = length aged \<and>
            (\<forall>k < length aged. getLifetime d (kf (aged ! k)) > lifetimeThreshold m \<longrightarrow>
               predictions (kalmanTrackers m' ! k) = predictions (aged ! k) + 1)))"
proof (cases "massCenters = []")
  case True
  show ?thesis by (simp add: True update_Nil Let_def)
next
  case False
  with assms have
    f: "fits (length (seed_pool m massCenters)) (length massCenters) (solved d m massCenters)"
    by simp
  let ?thr = "missedFramesThreshold m"
  let ?tol = "tolerated d m massCenters boundingRects"
  let ?kept = "kept d m massCenters boundingRects"
  from update_newborn [OF False f, of boundingRects] obtain m' out where
    u: "update d m massCenters boundingRects = Some (m', out)" and
    len: "length (kalmanTrackers m') =
       length (fst ?kept) + length (centersWithoutKalman (length massCenters) (snd ?kept))" and
    new: "drop (length (fst ?kept)) (kalmanTrackers m') =
       births d massCenters (centersWithoutKalman (length massCenters) (snd ?kept))"
    by blast
  have old: "slot ?thr ?tol i < length (fst ?kept) \<and>
      predictions (kalmanTrackers m' ! slot ?thr ?tol i) = predictions (seed_pool m massCenters ! i) + 1"
    if i: "i < length (seed_pool m massCenters)"
      and alive: "numFramesWithoutUpdate (?tol ! i) \<le> ?thr" for i
  proof -
    from update_slot [OF False f i alive] u
    have "kalmanTrackers m' ! slot ?thr ?tol i =
       (if gated d m massCenters ! i \<noteq> -1
        then gotUpdate (correct (massCenters ! nat (gated d m massCenters ! i)) (predict (?tol ! i)))
        else correct_no_obs (predict (?tol ! i)))"
      by auto
    then have "predictions (kalmanTrackers m' ! slot ?thr ?tol i) = predictions (?tol ! i) + 1"
      by simp
    with kept_slot [OF f i alive] predictions_tolerated [OF f i, of boundingRects]
    show ?thesis by simp
  qed
  have young: "predictions (kalmanTrackers m' ! k) = 0"
    if k: "length (fst ?kept) \<le> k" "k < length (kalmanTrackers m')" for k
  proof -
    have "kalmanTrackers m' ! k = drop (length (fst ?kept)) (kalmanTrackers m') ! (k - length (fst ?kept))"
      using k by simp
    moreover have "k - length (fst ?kept) < length (drop (length (fst ?kept)) (kalmanTrackers m'))"
      using k by simp
    ultimately have "kalmanTrackers m' ! k \<in> set (drop (length (fst ?kept)) (kalmanTrackers m'))"
      by (metis nth_mem)
    then have "calls (kf (kalmanTrackers m' ! k)) = []"
      unfolding new by (rule births_calls)
    then show ?thesis by (simp add: predictions_def)
  qed
  from u len old young False show ?thesis by blast
qed


theorem predict_once_per_assigned_survivor_witness:
  "([(400, 400)] = ([] :: point2f list) \<or>
     fits (length (seed_pool m0 [(400, 400)])) (length [(400 :: real, 400 :: real)])
       (solved d0 m0 [(400, 400)])) \<and>
   predictions (seed_pool m0 [(400, 400)] ! 0) = 1 \<and>
   (\<exists>m' out. update d0 m0 [(400, 400)] [box_far] = Some (m', out) \<and>
      length (kalmanTrackers m') = 2 \<and>
      predictions (kalmanTrackers m' ! 0) = 2 \<and>
      predictions (kalmanTrackers m' ! 1) = 0) \<and>
   (\<exists>m' out. update d0 m1 [] [] = Some (m', out) \<and>
      predictions (kalmanTrackers m' ! 0) = 3)"
proof -
  let ?cs = "[(400, 400)] :: point2f list"
  let ?rs = "[box_far]"
  let ?aged = "filter (\<lambda>t. numFramesWithoutUpdate t \<le> missedFramesThreshold m1)
                 (map noUpdateThisFrame (kalmanTrackers m1))"
  have a: "0 < length ?aged" by (simp add: run_simps noUpdateThisFrame_def)
  have v: "getLifetime d0 (kf (?aged ! 0)) > lifetimeThreshold m1"
    by (simp add: run_simps noUpdateThisFrame_def)
  have pa: "predictions (?aged ! 0) = 2"
    by (simp add: run_simps noUpdateThisFrame_def predictions_def)
  from predict_once_per_assigned_survivor [of "[]" m1 d0 "[]"] obtain m'' out'' where
    u'': "update d0 m1 [] [] = Some (m'', out'')" and
    q: "\<forall>k < length ?aged. getLifetime d0 (kf (?aged ! k)) > lifetimeThreshold m1 \<longrightarrow>
          predictions (kalmanTrackers m'' ! k) = predictions (?aged ! k) + 1"
    by (auto simp: Let_def)
  from q a v have "predictions (kalmanTrackers m'' ! 0) = predictions (?aged ! 0) + 1" by blast
  with u'' pa have quiet: "\<exists>m' out. update d0 m1 [] [] = Some (m', out) \<and>
      predictions (kalmanTrackers m' ! 0) = 3"
    by auto
  have h: "?cs = [] \<or> fits (length (seed_pool m0 ?cs)) (length ?cs) (solved d0 m0 ?cs)"
    by (simp add: run_simps)
  have p: "predictions (seed_pool m0 ?cs ! 0) = 1"
    by (simp add: run_simps predictions_def)
  have i: "0 < length (seed_pool m0 ?cs)" by (simp add: run_simps)
  have alive: "numFramesWithoutUpdate (tolerated d0 m0 ?cs ?rs ! 0) \<le> missedFramesThreshold m0"
    by (simp add: run_simps)
  have s: "slot (missedFramesThreshold m0) (tolerated d0 m0 ?cs ?rs) 0 = 0"
    by (simp add: slot_def)
  have k: "length (fst (kept d0 m0 ?cs ?rs)) = 1"
    by (simp add: run_simps)
  have c: "length (centersWithoutKalman (length ?cs) (snd (kept d0 m0 ?cs ?rs))) = 1"
    by (simp add: run_simps)
  from predict_once_per_assigned_survivor [OF h, of ?rs] obtain m' out where
    u: "update d0 m0 ?cs ?rs = Some (m', out)" and
    len: "length (kalmanTrackers m') =
       length (fst (kept d0 m0 ?cs ?rs)) +
       length (centersWithoutKalman (length ?cs) (snd (kept d0 m0 ?cs ?rs)))" and
    old: "\<forall>i < length (seed_pool m0 ?cs).
           numFramesWithoutUpdate (tolerated d0 m0 ?cs ?rs ! i) \<le> missedFramesThreshold m0 \<longrightarrow>
           slot (missedFramesThreshold m0) (tolerated d0 m0 ?cs ?rs) i
             < length (fst (kept d0 m0 ?cs ?rs)) \<and>
           predictions (kalmanTrackers m' !
              slot (missedFramesThreshold m0) (tolerated d0 m0 ?cs ?rs) i) =
             predictions (seed_pool m0 ?cs ! i) + 1" and
    new: "\<forall>k. length (fst (kept d0 m0 ?cs ?rs)) \<le> k \<and> k < length (kalmanTrackers m') \<longrightarrow>
           predictions (kalmanTrackers m' ! k) = 0"
    by auto
  from len k c have l: "length (kalmanTrackers m') = 2" by simp
  from old i alive have "predictions (kalmanTrackers m' !
      slot (missedFramesThreshold m0) (tolerated d0 m0 ?cs ?rs) 0) = predictions (seed_pool m0 ?cs ! 0) + 1"
    by blast
  then have "predictions (kalmanTrackers m' ! 0) = 2"
    unfolding s p by simp
  moreover from new k l have "predictions (kalmanTrackers m' ! 1) = 0" by simp
  ultimately show ?thesis using h p u l quiet by blast
qed

text \<open>
  The claim that every filter left in the pool is predicted once in every call fails
  twice on three frames of one track: the filter born in the second frame has no
  \<open>predict()\<close> when that call returns, and none either after the third frame, which has
  no detections and finds its lifetime at 0, not past the threshold 0.
\<close>

theorem predict_skips_newborn_and_young:
  "update d0 m0 [(400, 400)] [box_far] = Some (m1, [(10, 10)]) \<and>
   map predictions (kalmanTrackers m0) = [1] \<and>
   map predictions (kalmanTrackers m1) = [2, 0] \<and>
   map (\<lambda>t. getLifetime d0 (kf t)) (kalmanTrackers m1) = [4, 0] \<and>
   lifetimeThreshold m1 = 0 \<and>
   update d0 m1 [] [] = Some (m2, [(10, 10)]) \<and>
   map predictions (kalmanTrackers m2) = [3, 0]"
proof -
  have "map predictions (kalmanTrackers m0) = [1]"
    and "map predictions (kalmanTrackers m1) = [2, 0]"
    and "map (\<lambda>t. getLifetime d0 (kf t)) (kalmanTrackers m1) = [4, 0]"
    and "lifetimeThreshold m1 = 0"
    and "map predictions (kalmanTrackers m2) = [3, 0]"
    by (simp_all add: predictions_def run_simps)
  with example_run example_quiet_run show ?thesis by simp
qed

section \<open>The gate\<close>

text \<open>
  C1 on the code. One track predicts (10, 10), the only detection is at (400, 400), the
  frame is 500 by 500 and the gate a tenth of it. The solver pairs them, the cost is above
  the gate of 50, the pairing is cancelled and the detection becomes a new filter seeded
  at (400, 400): so far as the claim says. But the counter of missed frames of the old
  filter is 0 before the call and 0 after it: the gate loop pushes the index on
  \<open>kalmansWithoutCenters\<close> and does not call \<open>noUpdateThisFrame\<close>, which only the
  filters the solver left unpaired get.
\<close>

theorem gate_leaves_counter_alone:
  "update d0 m_init [(10, 10)] [box_far] = Some (m0, [(10, 10)]) \<and>
   map numFramesWithoutUpdate (kalmanTrackers m0) = [0] \<and>
   map (\<lambda>t. latestPrediction d0 (kf t)) (kalmanTrackers m0) = [(10, 10)] \<and>
   solved d0 m0 [(400, 400)] = [0] \<and>
   distanceThreshold m0 * frameDimension m0 = 50 \<and>
   50 < costMatrix d0 (kalmanTrackers m0) [(400, 400)] ! 0 ! 0 \<and>
   gated d0 m0 [(400, 400)] = [-1] \<and>
   \<not> contains box_far (toPoint (10, 10)) \<and>
   update d0 m0 [(400, 400)] [box_far] = Some (m1, [(10, 10)]) \<and>
   map numFramesWithoutUpdate (kalmanTrackers m1) = [0, 0] \<and>
   map (startPt \<circ> kf) (kalmanTrackers m1) = [(10, 10), (400, 400)]"
proof -
  have "map numFramesWithoutUpdate (kalmanTrackers m0) = [0]"
    and "map (\<lambda>t. latestPrediction d0 (kf t)) (kalmanTrackers m0) = [(10, 10)]"
    and "solved d0 m0 [(400, 400)] = [0]"
    and "distanceThreshold m0 * frameDimension m0 = 50"
    and "50 < costMatrix d0 (kalmanTrackers m0) [(400, 400)] ! 0 ! 0"
    and "gated d0 m0 [(400, 400)] = [-1]"
    and "\<not> contains box_far (toPoint (10, 10))"
    and "map numFramesWithoutUpdate (kalmanTrackers m1) = [0, 0]"
    and "map (startPt \<circ> kf) (kalmanTrackers m1) = [(10, 10), (400, 400)]"
    by (simp_all add: run_simps)
  with first_frame example_run show ?thesis by simp
qed


section \<open>The two ways a filter is born\<close>

lemma kept_from_pool:
  assumes f: "fits (length (seed_pool m cs)) (length cs) (solved d m cs)"
    and k: "k < length (fst (kept d m cs rs))"
  shows "\<exists>i < length (seed_pool m cs). kf (fst (kept d m cs rs) ! k) = kf (seed_pool m cs ! i)"
proof -
  have "fst (kept d m cs rs) ! k \<in> set (tolerated d m cs rs)"
    using k nth_mem [OF k] by (simp add: fst_kept [OF f])
  then obtain i where "i < length (tolerated d m cs rs)"
    and "fst (kept d m cs rs) ! k = tolerated d m cs rs ! i"
    by (metis in_set_conv_nth)
  then show ?thesis
    using kf_tolerated [OF f, of i rs] by (auto simp: length_tolerated [OF f])
qed

lemma update_old_filter:
  assumes ne: "cs \<noteq> []"
    and f: "fits (length (seed_pool m cs)) (length cs) (solved d m cs)"
  shows "\<exists>m' out. update d m cs rs = Some (m', out) \<and>
     (\<forall>k < length (fst (kept d m cs rs)).
        \<exists>i < length (seed_pool m cs).
          startPt (kf (kalmanTrackers m' ! k)) = startPt (kf (seed_pool m cs ! i)) \<and>
          kf_dt (kf (kalmanTrackers m' ! k)) = kf_dt (kf (seed_pool m cs ! i)) \<and>
          kf_accel (kf (kalmanTrackers m' ! k)) = kf_accel (kf (seed_pool m cs ! i)))"
proof -
  from update_pool [OF ne f, of rs] obtain m' out where
    u: "update d m cs rs = Some (m', out)" and
    p: "kalmanTrackers m' =
       map (\<lambda>(t, a). if a \<noteq> -1 then gotUpdate (correct (cs ! nat a) (predict t))
                      else correct_no_obs (predict t))
         (zip (fst (kept d m cs rs)) (snd (kept d m cs rs))) @
       births d cs (centersWithoutKalman (length cs) (snd (kept d m cs rs)))"
    by blast
  have "\<exists>i < length (seed_pool m cs).
          startPt (kf (kalmanTrackers m' ! k)) = startPt (kf (seed_pool m cs ! i)) \<and>
          kf_dt (kf (kalmanTrackers m' ! k)) = kf_dt (kf (seed_pool m cs ! i)) \<and>
          kf_accel (kf (kalmanTrackers m' ! k)) = kf_accel (kf (seed_pool m cs ! i))"
    if k: "k < length (fst (kept d m cs rs))" for k
  proof -
    from kept_from_pool [OF f k] obtain i where i: "i < length (seed_pool m cs)"
      and e: "kf (fst (kept d m cs rs) ! k) = kf (seed_pool m cs ! i)" by blast
    have "kalmanTrackers m' ! k =
       (if snd (kept d m cs rs) ! k \<noteq> -1
        then gotUpdate (correct (cs ! nat (snd (kept d m cs rs) ! k)) (predict (fst (kept d m cs rs) ! k)))
        else correct_no_obs (predict (fst (kept d m cs rs) ! k)))"
      using k by (simp add: p nth_append length_kept [OF f])
    then have "startPt (kf (kalmanTrackers m' ! k)) = startPt (kf (fst (kept d m cs rs) ! k)) \<and>
          kf_dt (kf (kalmanTrackers m' ! k)) = kf_dt (kf (fst (kept d m cs rs) ! k)) \<and>
          kf_accel (kf (kalmanTrackers m' ! k)) = kf_accel (kf (fst (kept d m cs rs) ! k))"
      by simp
    with i e show ?thesis by auto
  qed
  with u show ?thesis by blast
qed

text \<open>
  C10. The filters \<open>update\<close> pushes for the unassigned detections are built from the
  centroid alone, so with the constructor's default step and noise magnitude; they are the
  part of the pool behind the filters the erase loop kept. When the pool is empty at the
  start of the call, the filters made then have the configured \<open>dt\<close> and
  \<open>magnitudeOfAccelerationNoise\<close>, and keep them through the call. The two kinds differ
  in their motion parameters as soon as a configured value differs from its default.
\<close>

theorem birth_paths_differ:
  assumes "massCenters \<noteq> []"
    and "fits (length (seed_pool m massCenters)) (length massCenters) (solved d m massCenters)"
  shows "\<exists>m' out. update d m massCenters boundingRects = Some (m', out) \<and>
     drop (length (fst (kept d m massCenters boundingRects))) (kalmanTrackers m') =
       map (\<lambda>i. KalmanTracker (massCenters ! i) (defaultDt d) (defaultAccel d))
         (centersWithoutKalman (length massCenters) (snd (kept d m massCenters boundingRects))) \<and>
     (kalmanTrackers m = [] \<longrightarrow>
        seed_pool m massCenters =
          map (\<lambda>c. KalmanTracker c (dt m) (magnitudeOfAccelerationNoise m)) massCenters \<and>
        (\<forall>k < length (fst (kept d m massCenters boundingRects)).
           kf_dt (kf (kalmanTrackers m' ! k)) = dt m \<and>
           kf_accel (kf (kalmanTrackers m' ! k)) = magnitudeOfAccelerationNoise m)) \<and>
     ((dt m \<noteq> defaultDt d \<or> magnitudeOfAccelerationNoise m \<noteq> defaultAccel d) \<longrightarrow>
        (\<forall>c c'. kf (KalmanTracker c (dt m) (magnitudeOfAccelerationNoise m)) \<noteq>
                kf (KalmanTracker c' (defaultDt d) (defaultAccel d))))"
proof -
  let ?kept = "kept d m massCenters boundingRects"
  from update_newborn [OF assms, of boundingRects] update_old_filter [OF assms, of boundingRects]
  obtain m' out where
    u: "update d m massCenters boundingRects = Some (m', out)" and
    new: "drop (length (fst ?kept)) (kalmanTrackers m') =
       births d massCenters (centersWithoutKalman (length massCenters) (snd ?kept))" and
    old: "\<forall>k < length (fst ?kept). \<exists>i < length (seed_pool m massCenters).
          startPt (kf (kalmanTrackers m' ! k)) = startPt (kf (seed_pool m massCenters ! i)) \<and>
          kf_dt (kf (kalmanTrackers m' ! k)) = kf_dt (kf (seed_pool m massCenters ! i)) \<and>
          kf_accel (kf (kalmanTrackers m' ! k)) = kf_accel (kf (seed_pool m massCenters ! i))"
    by auto
  have seeded: "kf_dt (kf (kalmanTrackers m' ! k)) = dt m \<and>
           kf_accel (kf (kalmanTrackers m' ! k)) = magnitudeOfAccelerationNoise m"
    if e: "kalmanTrackers m = []" and k: "k < length (fst ?kept)" for k
  proof -
    from old k obtain i where i: "i < length (seed_pool m massCenters)"
      and "kf_dt (kf (kalmanTrackers m' ! k)) = kf_dt (kf (seed_pool m massCenters ! i))"
      and "kf_accel (kf (kalmanTrackers m' ! k)) = kf_accel (kf (seed_pool m massCenters ! i))"
      by blast
    then show ?thesis using e by (simp add: seed_pool_def KalmanTracker_def)
  qed
  have differ: "kf (KalmanTracker c (dt m) (magnitudeOfAccelerationNoise m)) \<noteq>
                kf (KalmanTracker c' (defaultDt d) (defaultAccel d))"
    if "dt m \<noteq> defaultDt d \<or> magnitudeOfAccelerationNoise m \<noteq> defaultAccel d" for c c'
    using that by (auto simp: KalmanTracker_def)
  from u new seeded differ show ?thesis
    by (auto simp: births_def KalmanTracker1_def seed_pool_def)
qed

theorem birth_paths_differ_witness:
  "[(10, 10)] \<noteq> ([] :: point2f list) \<and>
   fits (length (seed_pool m_init [(10, 10)])) (length [(10 :: real, 10 :: real)])
     (solved d0 m_init [(10, 10)]) \<and>
   kalmanTrackers m_init = [] \<and>
   (\<exists>m' out. update d0 m_init [(10, 10)] [box_far] = Some (m', out) \<and>
      kf_dt (kf (kalmanTrackers m' ! 0)) = 2 \<and> kf_accel (kf (kalmanTrackers m' ! 0)) = 3) \<and>
   [(400, 400)] \<noteq> ([] :: point2f list) \<and>
   fits (length (seed_pool m0 [(400, 400)])) (length [(400 :: real, 400 :: real)])
     (solved d0 m0 [(400, 400)]) \<and>
   (\<exists>m' out. update d0 m0 [(400, 400)] [box_far] = Some (m', out) \<and>
      drop 1 (kalmanTrackers m') = [KalmanTracker (400, 400) 1 (1 / 2)])"
proof -
  let ?c1 = "[(10, 10)] :: point2f list"
  let ?c2 = "[(400, 400)] :: point2f list"
  have a1: "?c1 \<noteq> []" and a2: "?c2 \<noteq> []" by simp_all
  have f1: "fits (length (seed_pool m_init ?c1)) (length ?c1) (solved d0 m_init ?c1)"
    by (simp add: run_simps)
  have f2: "fits (length (seed_pool m0 ?c2)) (length ?c2) (solved d0 m0 ?c2)"
    by (simp add: run_simps)
  have e: "kalmanTrackers m_init = []" by (simp add: m_init_def)
  have k1: "length (fst (kept d0 m_init ?c1 [box_far])) = 1"
    by (simp add: run_simps cv_norm_def)
  have k2: "length (fst (kept d0 m0 ?c2 [box_far])) = 1"
    by (simp add: run_simps)
  have free: "centersWithoutKalman (length ?c2) (snd (kept d0 m0 ?c2 [box_far])) = [0]"
    by (simp add: run_simps)
  have p: "dt m_init = 2" "magnitudeOfAccelerationNoise m_init = 3"
    "defaultDt d0 = 1" "defaultAccel d0 = 1 / 2"
    by (simp_all add: m_init_def d0_def)
  from birth_paths_differ [OF a1 f1, of "[box_far]"] e
  have r1: "\<exists>m' out. update d0 m_init ?c1 [box_far] = Some (m', out) \<and>
      kf_dt (kf (kalmanTrackers m' ! 0)) = 2 \<and> kf_accel (kf (kalmanTrackers m' ! 0)) = 3"
    unfolding k1 p by auto
  from birth_paths_differ [OF a2 f2, of "[box_far]"]
  have r2: "\<exists>m' out. update d0 m0 ?c2 [box_far] = Some (m', out) \<and>
      drop 1 (kalmanTrackers m') = [KalmanTracker (400, 400) 1 (1 / 2)]"
    unfolding k2 free p by auto
  from a1 f1 e r1 a2 f2 r2 show ?thesis by blast
qed

section \<open>The size filter\<close>

lemma toward_zero_mono: "x \<le> y \<Longrightarrow> toward_zero x \<le> toward_zero y"
proof -
  assume xy: "x \<le> y"
  consider "0 \<le> x" | "x < 0" "0 \<le> y" | "y < 0" by linarith
  then show ?thesis
  proof cases
    case 1
    with xy show ?thesis by (simp add: toward_zero_def floor_mono)
  next
    case 2
    then have "\<lceil>x\<rceil> \<le> 0" and "0 \<le> \<lfloor>y\<rfloor>" by (simp_all add: ceiling_le_zero)
    then have "\<lceil>x\<rceil> \<le> \<lfloor>y\<rfloor>" by linarith
    with 2 show ?thesis by (simp add: toward_zero_def)
  next
    case 3
    with xy show ?thesis by (simp add: toward_zero_def ceiling_mono)
  qed
qed

lemma toward_zero_of_int [simp]: "toward_zero (of_int k) = k"
  by (simp add: toward_zero_def)

lemma toward_zero_0 [simp]: "toward_zero 0 = 0"
  by (simp add: toward_zero_def)

lemma toward_zero_max: "toward_zero (max x y) = max (toward_zero x) (toward_zero y)"
  by (simp add: max_def toward_zero_mono) (metis antisym linear toward_zero_mono)

lemma to_int_Some: "INT_MIN \<le> toward_zero v \<Longrightarrow> toward_zero v \<le> INT_MAX \<Longrightarrow> to_int v = Some (toward_zero v)"
  by (simp add: to_int_def)

lemma to_int_None: "INT_MAX < toward_zero v \<Longrightarrow> to_int v = None"
  by (simp add: to_int_def)

lemma Max_step:
  "toward_zero (Max (insert (of_int (toward_zero (max (of_int acc) a))) (set areas))) =
   toward_zero (Max (insert (of_int acc) (insert a (set areas))))"
proof (cases "areas = []")
  case True
  then show ?thesis by (simp add: toward_zero_max)
next
  case False
  then have ne: "set areas \<noteq> {}" by simp
  have "toward_zero (Max (insert (of_int (toward_zero (max (of_int acc) a))) (set areas))) =
        max (toward_zero (max (of_int acc) a)) (toward_zero (Max (set areas)))"
    using ne by (simp add: toward_zero_max)
  also have "\<dots> = toward_zero (max (max (of_int acc) a) (Max (set areas)))"
    by (simp add: toward_zero_max)
  also have "max (max (of_int acc) a) (Max (set areas)) =
             Max (insert (of_int acc) (insert a (set areas)))"
    using ne by (simp add: max.assoc)
  finally show ?thesis .
qed

lemma accumulate_max:
  "INT_MIN \<le> acc \<Longrightarrow> acc \<le> INT_MAX \<Longrightarrow>
   accumulate areas acc max =
     (if toward_zero (Max (insert (of_int acc) (set areas))) \<le> INT_MAX
      then Some (toward_zero (Max (insert (of_int acc) (set areas)))) else None)"
proof (induction areas arbitrary: acc)
  case Nil
  then show ?case by simp
next
  case (Cons a areas)
  let ?v = "toward_zero (max (of_int acc) a)"
  have low: "INT_MIN \<le> ?v"
    using toward_zero_mono [of "of_int acc" "max (of_int acc) a"] Cons.prems(1) by simp
  show ?case
  proof (cases "?v \<le> INT_MAX")
    case True
    with low have "to_int (max (of_int acc) a) = Some ?v" by (rule to_int_Some)
    with Cons.IH [OF low True] show ?thesis by (simp add: Max_step)
  next
    case False
    then have n: "to_int (max (of_int acc) a) = None" by (simp add: to_int_None)
    have "of_int acc \<le> Max (insert (of_int acc) (insert a (set areas)))"
      and "a \<le> Max (insert (of_int acc) (insert a (set areas)))"
      by (rule Max_ge; simp)+
    then have "max (of_int acc) a \<le> Max (insert (of_int acc) (insert a (set areas)))" by simp
    from toward_zero_mono [OF this] False
    have "\<not> toward_zero (Max (insert (of_int acc) (insert a (set areas)))) \<le> INT_MAX" by linarith
    with n show ?thesis by simp
  qed
qed

lemma maxArea_Max:
  "maxArea areas =
     (if toward_zero (Max (insert 0 (set areas))) \<le> INT_MAX
      then Some (toward_zero (Max (insert 0 (set areas)))) else None)"
  using accumulate_max [of 0 areas] by (simp add: maxArea_def INT_MIN_def INT_MAX_def)

lemma toward_zero_le_INT_MAX: "(toward_zero v \<le> INT_MAX) = (v < 2 ^ 31)"
  by (auto simp: toward_zero_def INT_MAX_def floor_less_iff [symmetric])

lemma INT_MIN_le_toward_zero: "(INT_MIN \<le> toward_zero v) = (- (2 ^ 31) - 1 < v)"
  by (auto simp: toward_zero_def INT_MIN_def le_ceiling_iff le_floor_iff)

lemma to_int_range:
  "to_int v = (if - (2 ^ 31) - 1 < v \<and> v < 2 ^ 31 then Some (toward_zero v) else None)"
  by (simp add: to_int_def toward_zero_le_INT_MAX INT_MIN_le_toward_zero)

lemma threshold_eq:
  "threshold cv cf contours =
     (if Max (insert 0 (contourArea cv ` set contours)) < 2 ^ 31
      then to_int (contourSizeThreshold cf *
             of_int (toward_zero (Max (insert 0 (contourArea cv ` set contours)))))
      else None)"
  by (simp add: threshold_def maxArea_Max toward_zero_le_INT_MAX)

lemma whole_toward_zero: "v \<in> \<int> \<Longrightarrow> of_int (toward_zero v) = v"
  by (auto simp: Ints_def)

text \<open>
  C6, as the code has it. Let the largest area (0 for no contour) be a whole number below
  \<open>2 ^ 31\<close>, and let its product with \<open>contourSizeThreshold\<close> lie in the range of the
  conversion to \<open>int\<close>. Then the size filter keeps a contour exactly when its area is
  above that product without its fraction, the threshold being declared \<open>int\<close>; the
  contours kept are in the order they had. When every contour has area 0, none is kept.
\<close>

theorem size_filter_compares_with_truncated_threshold:
  "(Max (insert 0 (contourArea cv ` set contours)) \<in> \<int> \<and>
    Max (insert 0 (contourArea cv ` set contours)) < 2 ^ 31 \<and>
    - (2 ^ 31) - 1 < contourSizeThreshold cf * Max (insert 0 (contourArea cv ` set contours)) \<and>
    contourSizeThreshold cf * Max (insert 0 (contourArea cv ` set contours)) < 2 ^ 31 \<longrightarrow>
      filterOutBadContours cv cf contours =
        Some (filter (\<lambda>c. of_int (toward_zero (contourSizeThreshold cf *
                              Max (insert 0 (contourArea cv ` set contours))))
                          < contourArea cv c) contours)) \<and>
   ((\<forall>c \<in> set contours. contourArea cv c = 0) \<longrightarrow>
      filterOutBadContours cv cf contours = Some [])"
proof -
  let ?A = "Max (insert 0 (contourArea cv ` set contours))"
  have main: "filterOutBadContours cv cf contours =
        Some (filter (\<lambda>c. of_int (toward_zero (contourSizeThreshold cf * ?A)) < contourArea cv c)
                contours)"
    if w: "?A \<in> \<int>" and a: "?A < 2 ^ 31"
      and lo: "- (2 ^ 31) - 1 < contourSizeThreshold cf * ?A"
      and hi: "contourSizeThreshold cf * ?A < 2 ^ 31"
  proof -
    have "threshold cv cf contours = Some (toward_zero (contourSizeThreshold cf * ?A))"
      using a lo hi by (simp add: threshold_eq whole_toward_zero [OF w] to_int_range)
    then show ?thesis by (simp add: filterOutBadContours_def not_le)
  qed
  have zero: "filterOutBadContours cv cf contours = Some []"
    if z: "\<forall>c \<in> set contours. contourArea cv c = 0"
  proof -
    have "insert 0 (contourArea cv ` set contours) = {0}" using z by auto
    then have A: "?A = 0" by (simp only: Max_singleton)
    then have "threshold cv cf contours = Some 0" by (simp add: threshold_eq to_int_range)
    then show ?thesis using z by (simp add: filterOutBadContours_def filter_empty_conv)
  qed
  from main zero show ?thesis by blast
qed

lemma example_areas:
  "contourArea cv0 strip = 3" "contourArea cv0 wedge = 3 / 2" "contourArea cv0 hairline = 0"
  "contourArea cv0 long_wedge = 7 / 2" "contourArea cv0 huge = 2500000000"
  by (simp_all add: cv0_def cv_contourArea_def strip_def wedge_def hairline_def long_wedge_def
      huge_def)

lemma toward_zero_numeral [simp]: "toward_zero (numeral n) = numeral n"
  by (simp add: toward_zero_def)

lemma example_thresholds:
  "threshold cv0 cf0 [strip, wedge] = Some 1"
  "threshold cv0 cf_high [long_wedge, strip] = Some 2"
  "threshold cv0 cf_neg [strip, hairline] = Some (- 1)"
  "threshold cv0 cf0 [huge] = None"
  "threshold cv0 cf0 [huge, hairline] = None"
  by (simp_all add: threshold_eq example_areas cf0_def cf_high_def cf_neg_def to_int_range
      toward_zero_def)

theorem size_filter_compares_with_truncated_threshold_witness:
  "Max (insert 0 (contourArea cv0 ` set [strip, wedge, hairline])) = 3 \<and>
   contourSizeThreshold cf0 * 3 = 3 / 2 \<and> toward_zero (3 / 2) = 1 \<and>
   filterOutBadContours cv0 cf0 [strip, wedge, hairline] = Some [strip, wedge] \<and>
   list_all (\<lambda>c. contourArea cv0 c = 0) [hairline, hairline] \<and>
   filterOutBadContours cv0 cf0 [hairline, hairline] = Some []"
proof -
  have m: "Max (insert 0 (contourArea cv0 ` set [strip, wedge, hairline])) = 3"
    by (simp add: example_areas)
  have f: "contourSizeThreshold cf0 * 3 = 3 / 2" by (simp add: cf0_def)
  have t: "toward_zero (3 / 2) = 1" by (simp add: toward_zero_def)
  have "filterOutBadContours cv0 cf0 [strip, wedge, hairline] = Some [strip, wedge]"
    using size_filter_compares_with_truncated_threshold [of cv0 "[strip, wedge, hairline]" cf0]
    unfolding m f t by (simp add: example_areas)
  moreover have z: "\<forall>c \<in> set [hairline, hairline]. contourArea cv0 c = 0"
    by (simp add: example_areas)
  moreover have "filterOutBadContours cv0 cf0 [hairline, hairline] = Some []"
    using size_filter_compares_with_truncated_threshold [of cv0 "[hairline, hairline]" cf0] z
    by blast
  ultimately show ?thesis using m f t by (simp add: list_all_iff)
qed

text \<open>
  The claim with the product itself fails: with the fraction 1/2 and the areas 3 and 3/2,
  the smaller area is not above half of the larger, and the contour is kept, since the
  threshold is 1. Neither condition of the theorem can be dropped. With the fraction 9/10
  and the areas 7/2 and 3, the area 3 is above neither the product 63/20 nor 3, the
  product without its fraction, and the contour is kept. For a contour of area
  2500000000 the conversion to \<open>int\<close> is undefined and the filter has no result.
\<close>

theorem size_filter_keeps_half_of_largest:
  "contourArea cv0 strip = 3 \<and> contourArea cv0 wedge = 3 / 2 \<and>
   contourSizeThreshold cf0 = 1 / 2 \<and>
   \<not> contourArea cv0 wedge > contourSizeThreshold cf0 * contourArea cv0 strip \<and>
   filterOutBadContours cv0 cf0 [strip, wedge] = Some [strip, wedge] \<and>
   contourArea cv0 long_wedge = 7 / 2 \<and> contourSizeThreshold cf_high = 9 / 10 \<and>
   \<not> contourArea cv0 strip > contourSizeThreshold cf_high * contourArea cv0 long_wedge \<and>
   \<not> contourArea cv0 strip >
       of_int (toward_zero (contourSizeThreshold cf_high * contourArea cv0 long_wedge)) \<and>
   filterOutBadContours cv0 cf_high [long_wedge, strip] = Some [long_wedge, strip] \<and>
   contourArea cv0 huge = 2500000000 \<and>
   filterOutBadContours cv0 cf0 [huge] = None"
proof -
  have "filterOutBadContours cv0 cf0 [strip, wedge] = Some [strip, wedge]"
    by (simp add: filterOutBadContours_def example_thresholds example_areas)
  moreover have "filterOutBadContours cv0 cf_high [long_wedge, strip] = Some [long_wedge, strip]"
    by (simp add: filterOutBadContours_def example_thresholds example_areas)
  moreover have "filterOutBadContours cv0 cf0 [huge] = None"
    by (simp add: filterOutBadContours_def example_thresholds)
  moreover have "toward_zero (63 / 20) = 3" by (simp add: toward_zero_def)
  ultimately show ?thesis by (simp add: example_areas cf0_def cf_high_def)
qed

section \<open>Contours of area zero\<close>

lemma centers_map:
  "getCentersAndBoundingBoxes cv cs = (map (massCenter cv) cs, map (boundingBox cv) cs)"
  by (induction cs) simp_all

lemma threshold_nonneg:
  assumes "0 \<le> contourSizeThreshold cf" and "threshold cv cf contours = Some bound"
  shows "0 \<le> bound"
proof -
  let ?A = "Max (insert 0 (contourArea cv ` set contours))"
  have "(0::real) \<le> ?A" by simp
  from toward_zero_mono [OF this] have "0 \<le> toward_zero ?A" by simp
  with assms(1) have "0 \<le> contourSizeThreshold cf * of_int (toward_zero ?A)" by simp
  from toward_zero_mono [OF this]
  have "0 \<le> toward_zero (contourSizeThreshold cf * of_int (toward_zero ?A))" by simp
  with assms(2) show ?thesis
    by (simp add: threshold_eq to_int_def split: if_splits)
qed

lemma threshold_defined:
  assumes "0 \<le> contourSizeThreshold cf"
    and "Max (insert 0 (contourArea cv ` set contours)) < 2 ^ 31"
    and "contourSizeThreshold cf * Max (insert 0 (contourArea cv ` set contours)) < 2 ^ 31"
  shows "\<exists>bound. threshold cv cf contours = Some bound"
proof -
  let ?A = "Max (insert 0 (contourArea cv ` set contours))"
  have a: "(0::real) \<le> ?A" by simp
  from toward_zero_mono [OF this] have t: "0 \<le> toward_zero ?A" by simp
  have "of_int (toward_zero ?A) \<le> ?A" using a by (simp add: toward_zero_def)
  with assms(1) have "contourSizeThreshold cf * of_int (toward_zero ?A) \<le> contourSizeThreshold cf * ?A"
    by (rule mult_left_mono [rotated])
  with assms(3) have hi: "contourSizeThreshold cf * of_int (toward_zero ?A) < 2 ^ 31" by linarith
  have "0 \<le> contourSizeThreshold cf * of_int (toward_zero ?A)" using assms(1) t by simp
  moreover have "- (2 ^ 31) - 1 < (0::real)" by simp
  ultimately have lo: "- (2 ^ 31) - 1 < contourSizeThreshold cf * of_int (toward_zero ?A)"
    by (rule less_le_trans [rotated])
  from assms(2) lo hi show ?thesis by (simp add: threshold_eq to_int_range)
qed

lemma filtered_positive:
  assumes "0 \<le> contourSizeThreshold cf" and "filterOutBadContours cv cf contours = Some retained"
    and "c \<in> set retained"
  shows "0 < contourArea cv c"
proof -
  from assms(2) obtain bound where b: "threshold cv cf contours = Some bound"
    and k: "retained = filter (\<lambda>contour. \<not> contourArea cv contour \<le> of_int bound) contours"
    by (auto simp: filterOutBadContours_def split: option.splits)
  from assms(3) have "of_int bound < contourArea cv c" by (simp add: k not_le)
  moreover have "(0::real) \<le> of_int bound"
    using threshold_nonneg [OF assms(1) b] by simp
  ultimately show ?thesis by linarith
qed

text \<open>
  C3, as the code has it. Let the size fraction be non-negative, and the largest area and
  its product with the fraction below \<open>2 ^ 31\<close>. Then the size filter has a result, and
  every contour it keeps has an area above 0: a contour of area 0 is dropped before the
  first centroids are computed, and (the moment \<open>m00\<close> being the area) those are all
  finite. The centroid step itself has no test on \<open>m00\<close>: it computes
  \<open>m10 / m00\<close> and \<open>m01 / m00\<close> for every contour it is given, and skips none.
\<close>

theorem zero_area_dropped_before_first_centroids:
  "(0 \<le> contourSizeThreshold cf \<and>
    Max (insert 0 (contourArea cv ` set contours)) < 2 ^ 31 \<and>
    contourSizeThreshold cf * Max (insert 0 (contourArea cv ` set contours)) < 2 ^ 31 \<longrightarrow>
      (\<exists>retained. filterOutBadContours cv cf contours = Some retained \<and>
         (\<forall>c \<in> set retained. 0 < contourArea cv c) \<and>
         ((\<forall>c. fst (moments cv c) = contourArea cv c) \<longrightarrow>
            (\<forall>p \<in> set (fst (getCentersAndBoundingBoxes cv retained)).
               \<exists>x y. p = (Finite x, Finite y))))) \<and>
   fst (getCentersAndBoundingBoxes cv cs) =
     map (\<lambda>c. (fdiv (fst (snd (moments cv c))) (fst (moments cv c)),
                fdiv (snd (snd (moments cv c))) (fst (moments cv c)))) cs"
proof -
  let ?A = "Max (insert 0 (contourArea cv ` set contours))"
  have a: "\<exists>retained. filterOutBadContours cv cf contours = Some retained \<and>
         (\<forall>c \<in> set retained. 0 < contourArea cv c) \<and>
         ((\<forall>c. fst (moments cv c) = contourArea cv c) \<longrightarrow>
            (\<forall>p \<in> set (fst (getCentersAndBoundingBoxes cv retained)).
               \<exists>x y. p = (Finite x, Finite y)))"
    if thr: "0 \<le> contourSizeThreshold cf" and r1: "?A < 2 ^ 31"
      and r2: "contourSizeThreshold cf * ?A < 2 ^ 31"
  proof -
    from threshold_defined [OF thr r1 r2] obtain retained where
      k: "filterOutBadContours cv cf contours = Some retained"
      by (auto simp: filterOutBadContours_def)
    have pos: "\<forall>c \<in> set retained. 0 < contourArea cv c"
      using filtered_positive [OF thr k] by blast
    have fin: "\<exists>x y. p = (Finite x, Finite y)"
      if m: "\<forall>c. fst (moments cv c) = contourArea cv c"
        and p: "p \<in> set (fst (getCentersAndBoundingBoxes cv retained))" for p
    proof -
      from p obtain c where c: "c \<in> set retained" and pc: "p = massCenter cv c"
        by (auto simp: centers_map)
      from pos c m have "fst (moments cv c) \<noteq> 0" by force
      then show ?thesis
        unfolding pc by (cases "moments cv c") (auto simp: massCenter_def fdiv_def)
    qed
    from k pos fin show ?thesis by blast
  qed
  have c: "fst (getCentersAndBoundingBoxes cv cs) =
     map (\<lambda>c. (fdiv (fst (snd (moments cv c))) (fst (moments cv c)),
                fdiv (snd (snd (moments cv c))) (fst (moments cv c)))) cs"
    by (simp add: centers_map massCenter_def split: prod.splits)
  from a c show ?thesis by blast
qed

lemma cv0_m00: "fst (moments cv0 c) = contourArea cv0 c"
  by (simp add: cv0_def cv_moments_def cv_contourArea_def Let_def split: prod.splits)

theorem zero_area_dropped_before_first_centroids_witness:
  "0 \<le> contourSizeThreshold cf0 \<and>
   Max (insert 0 (contourArea cv0 ` set [strip, wedge, hairline])) = 3 \<and>
   contourSizeThreshold cf0 * 3 < 2 ^ 31 \<and>
   fst (moments cv0 strip) = contourArea cv0 strip \<and>
   fst (moments cv0 wedge) = contourArea cv0 wedge \<and>
   contourArea cv0 hairline = 0 \<and>
   (\<exists>retained. filterOutBadContours cv0 cf0 [strip, wedge, hairline] = Some retained \<and>
      hairline \<notin> set retained \<and>
      list_all (\<lambda>c. 0 < contourArea cv0 c) retained \<and>
      list_all (\<lambda>p. \<exists>x y. p = (Finite x, Finite y)) (fst (getCentersAndBoundingBoxes cv0 retained))) \<and>
   fst (getCentersAndBoundingBoxes cv0 [strip, wedge]) =
     [(Finite (3 / 2), Finite (1 / 2)), (Finite 1, Finite (1 / 3))]"
proof -
  have thr: "0 \<le> contourSizeThreshold cf0" by (simp add: cf0_def)
  have mx: "Max (insert 0 (contourArea cv0 ` set [strip, wedge, hairline])) = 3"
    by (simp add: example_areas)
  have r: "contourSizeThreshold cf0 * 3 < 2 ^ 31" by (simp add: cf0_def)
  have m: "\<forall>c. fst (moments cv0 c) = contourArea cv0 c" by (simp add: cv0_m00)
  have mo: "moments cv0 strip = (3, 9 / 2, 3 / 2)" "moments cv0 wedge = (3 / 2, 3 / 2, 1 / 2)"
    by (simp_all add: cv0_def cv_moments_def strip_def wedge_def)
  note t = zero_area_dropped_before_first_centroids
             [of cf0 cv0 "[strip, wedge, hairline]" "[strip, wedge]"]
  from t thr r m obtain retained where
    k: "filterOutBadContours cv0 cf0 [strip, wedge, hairline] = Some retained" and
    pos: "\<forall>c \<in> set retained. 0 < contourArea cv0 c" and
    fin: "\<forall>p \<in> set (fst (getCentersAndBoundingBoxes cv0 retained)). \<exists>x y. p = (Finite x, Finite y)"
    unfolding mx by auto
  from pos have out: "hairline \<notin> set retained"
    using example_areas(3) by force
  from t have "fst (getCentersAndBoundingBoxes cv0 [strip, wedge]) =
     [(Finite (3 / 2), Finite (1 / 2)), (Finite 1, Finite (1 / 3))]"
    by (simp add: mo fdiv_def)
  with thr mx r m k pos out fin show ?thesis by (simp add: example_areas list_all_iff)
qed

lemma upt2: "[0..<2] = [0, 1]"
  by (simp add: upt_rec)

lemma ring_areas: "contourArea cv0 ring = 1600" "contourArea cv0 ring_back = 1600"
  by (simp_all add: cv0_def cv_contourArea_def ring_def ring_back_def)

lemma ring_filter: "filterOutBadContours cv0 cf0 [ring, ring_back] = Some [ring, ring_back]"
  by (simp add: filterOutBadContours_def threshold_eq ring_areas cf0_def to_int_range toward_zero_def)

lemma ring_geometry:
  "getCentersAndBoundingBoxes cv0 [ring, ring_back] =
     ([(Finite 20, Finite 20), (Finite 20, Finite 20)],
      [\<lparr>rect_x = 0, rect_y = 0, rect_width = 41, rect_height = 41\<rparr>,
       \<lparr>rect_x = 0, rect_y = 0, rect_width = 41, rect_height = 41\<rparr>])"
  by (simp add: massCenter_def cv0_def cv_moments_def cv_boundingRect_def
      ring_def ring_back_def fdiv_def)

lemma ring_unions:
  "union_pass cf0 2 [(Finite 20, Finite 20), (Finite 20, Finite 20)]
     [\<lparr>rect_x = 0, rect_y = 0, rect_width = 41, rect_height = 41\<rparr>,
      \<lparr>rect_x = 0, rect_y = 0, rect_width = 41, rect_height = 41\<rparr>] =
   \<lparr>numElements = 2, unions = [(0, 1), (1, 0)]\<rparr>"
  by (simp add: union_pass_def upt2 mergeable_def dimension_def cf0_def
      DisjointSets_def Union_sets_def)

lemma ring_merge:
  "mergeContours FindSet0 cf0 [ring, ring_back] [(Finite 20, Finite 20), (Finite 20, Finite 20)]
     [\<lparr>rect_x = 0, rect_y = 0, rect_width = 41, rect_height = 41\<rparr>,
      \<lparr>rect_x = 0, rect_y = 0, rect_width = 41, rect_height = 41\<rparr>] =
   Some [ring @ ring_back]"
  by (simp add: mergeContours_def ring_unions [unfolded numeral_2_eq_2] itemsForSet_def
      FindSet0_def relabel_def aggregate_def Let_def)

lemma ring_merged_geometry:
  "moments cv0 (ring @ ring_back) = (0, 0, 0)"
  "getCentersAndBoundingBoxes cv0 [ring @ ring_back] =
     ([(NaN, NaN)], [\<lparr>rect_x = 0, rect_y = 0, rect_width = 41, rect_height = 41\<rparr>])"
  by (simp_all add: massCenter_def cv0_def cv_moments_def cv_boundingRect_def
      ring_def ring_back_def fdiv_def)

lemma ring_pipeline:
  "findContours cv0 FindSet0 cf0 [ring, ring_back] =
     Some ([ring @ ring_back], [(NaN, NaN)],
           [\<lparr>rect_x = 0, rect_y = 0, rect_width = 41, rect_height = 41\<rparr>])"
  unfolding findContours_def ring_filter option.case ring_geometry Let_def prod.case ring_merge
    ring_merged_geometry
  by (rule refl)

text \<open>
  The claim that a contour of area 0 which reaches the centroid step is skipped fails:
  given one, the step divides 0 by 0 and pushes the centroid (NaN, NaN). One reaches the
  second centroid step although the size filter dropped none: a square and the same
  square walked the other way round both have area 1600, their centroids coincide, the
  merge joins them, and the moments of the joined contour are all 0. One reaches the
  first centroid step when the size fraction is negative, since the threshold is then
  below 0; and for a contour of area 2500000000 the size filter has no result.
\<close>

theorem zero_area_contour_gets_a_centroid:
  "contourArea cv0 hairline = 0 \<and> moments cv0 hairline = (0, 0, 0) \<and>
   fst (getCentersAndBoundingBoxes cv0 [strip, hairline]) =
     [(Finite (3 / 2), Finite (1 / 2)), (NaN, NaN)] \<and>
   contourArea cv0 ring = 1600 \<and> contourArea cv0 ring_back = 1600 \<and>
   filterOutBadContours cv0 cf0 [ring, ring_back] = Some [ring, ring_back] \<and>
   fst (getCentersAndBoundingBoxes cv0 [ring, ring_back]) =
     [(Finite 20, Finite 20), (Finite 20, Finite 20)] \<and>
   moments cv0 (ring @ ring_back) = (0, 0, 0) \<and>
   findContours cv0 FindSet0 cf0 [ring, ring_back] =
     Some ([ring @ ring_back], [(NaN, NaN)],
           [\<lparr>rect_x = 0, rect_y = 0, rect_width = 41, rect_height = 41\<rparr>]) \<and>
   contourSizeThreshold cf_neg = - (1 / 2) \<and>
   filterOutBadContours cv0 cf_neg [strip, hairline] = Some [strip, hairline] \<and>
   contourArea cv0 huge = 2500000000 \<and>
   filterOutBadContours cv0 cf0 [huge, hairline] = None"
proof -
  have mo: "moments cv0 strip = (3, 9 / 2, 3 / 2)" "moments cv0 hairline = (0, 0, 0)"
    by (simp_all add: cv0_def cv_moments_def strip_def hairline_def)
  have n: "filterOutBadContours cv0 cf_neg [strip, hairline] = Some [strip, hairline]"
    by (simp add: filterOutBadContours_def example_thresholds example_areas)
  have h: "filterOutBadContours cv0 cf0 [huge, hairline] = None"
    by (simp add: filterOutBadContours_def example_thresholds)
  have g: "fst (getCentersAndBoundingBoxes cv0 [ring, ring_back]) =
     [(Finite 20, Finite 20), (Finite 20, Finite 20)]"
    by (simp only: ring_geometry fst_conv)
  have s: "fst (getCentersAndBoundingBoxes cv0 [strip, hairline]) =
     [(Finite (3 / 2), Finite (1 / 2)), (NaN, NaN)]"
    by (simp add: mo centers_map massCenter_def fdiv_def)
  from mo(2) s g n h show ?thesis
    by (simp only: example_areas ring_areas ring_filter ring_merged_geometry(1) ring_pipeline
        cf_neg_def contour_finder.simps simp_thms)
qed

section \<open>The merge pass\<close>

subsection \<open>The Union calls of the pass\<close>

lemma inner_unions:
  "unions (foldl (\<lambda>sets j. if i = j then sets else if M j then Union_sets sets i j else sets) s js) =
     unions s @ map (Pair i) (filter (\<lambda>j. i \<noteq> j \<and> M j) js) \<and>
   numElements (foldl (\<lambda>sets j. if i = j then sets else if M j then Union_sets sets i j else sets) s js) =
     numElements s"
  by (induction js arbitrary: s) (auto simp: Union_sets_def)

lemma outer_unions:
  "unions (foldl (\<lambda>sets i. foldl (\<lambda>sets j. if i = j then sets
                                     else if M i j then Union_sets sets i j else sets) sets js) s is) =
     unions s @ concat (map (\<lambda>i. map (Pair i) (filter (\<lambda>j. i \<noteq> j \<and> M i j) js)) is) \<and>
   numElements (foldl (\<lambda>sets i. foldl (\<lambda>sets j. if i = j then sets
                                     else if M i j then Union_sets sets i j else sets) sets js) s is) =
     numElements s"
proof (induction "is" arbitrary: s)
  case Nil
  then show ?case by simp
next
  case (Cons i "is")
  show ?case
    using Cons.IH [of "foldl (\<lambda>sets j. if i = j then sets
                         else if M i j then Union_sets sets i j else sets) s js"]
      inner_unions [of i "M i" s js]
    by simp
qed

lemma union_pass_unions:
  "set (unions (union_pass cf n massCenters boundingBoxes)) = proximity cf massCenters boundingBoxes n"
  unfolding union_pass_def proximity_def
  using outer_unions [of "mergeable cf massCenters boundingBoxes" "[0..<n]" "DisjointSets n" "[0..<n]"]
  by (auto simp: DisjointSets_def)

lemma union_pass_size [simp]:
  "numElements (union_pass cf n massCenters boundingBoxes) = n"
  unfolding union_pass_def
  using outer_unions [of "mergeable cf massCenters boundingBoxes" "[0..<n]" "DisjointSets n" "[0..<n]"]
  by (simp add: DisjointSets_def)

lemma cv_norm_commute: "cv_norm p q = cv_norm q p"
  unfolding cv_norm_def by (simp add: algebra_simps)

lemma norm_less_commute: "norm_less p q b = norm_less q p b"
  by (induction p q b rule: norm_less.induct) (simp_all add: cv_norm_commute)

lemma mergeable_commute:
  "mergeable cf massCenters boundingBoxes i j = mergeable cf massCenters boundingBoxes j i"
  unfolding mergeable_def dimension_def
  by (subst norm_less_commute) (simp add: max.commute)

lemma proximity_sym: "(proximity cf massCenters boundingBoxes n)\<inverse> = proximity cf massCenters boundingBoxes n"
  unfolding proximity_def using mergeable_commute by auto

lemma linked_union_pass:
  "linked (union_pass cf n massCenters boundingBoxes) = (proximity cf massCenters boundingBoxes n)\<^sup>*"
  by (simp add: linked_def union_pass_unions proximity_sym)

subsection \<open>itemsForSet\<close>

lemma push_back_at_map:
  "distinct ks \<Longrightarrow>
   push_back_at k i (map (\<lambda>k'. (k', g k')) ks) =
     (if k \<in> set ks then map (\<lambda>k'. (k', if k' = k then g k' @ [i] else g k')) ks
      else map (\<lambda>k'. (k', g k')) ks @ [(k, [i])])"
  by (induction ks) auto

lemma first_keys_snoc:
  "rev (remdups (rev (map f (xs @ [x])))) =
     (if f x \<in> f ` set xs then rev (remdups (rev (map f xs)))
      else rev (remdups (rev (map f xs))) @ [f x])"
  by simp

lemma items_closed_form:
  "foldl (\<lambda>m i. push_back_at (f i) i m) [] xs =
     map (\<lambda>k. (k, filter (\<lambda>i. f i = k) xs)) (rev (remdups (rev (map f xs))))"
proof (induction xs rule: rev_induct)
  case Nil
  then show ?case by simp
next
  case (snoc x xs)
  let ?K = "rev (remdups (rev (map f xs)))"
  have d: "distinct ?K" by simp
  have k: "set ?K = f ` set xs" by simp
  have "foldl (\<lambda>m i. push_back_at (f i) i m) [] (xs @ [x]) =
        push_back_at (f x) x (map (\<lambda>k. (k, filter (\<lambda>i. f i = k) xs)) ?K)"
    by (simp add: snoc.IH)
  also have "\<dots> = map (\<lambda>k. (k, filter (\<lambda>i. f i = k) (xs @ [x]))) (rev (remdups (rev (map f (xs @ [x])))))"
  proof (cases "f x \<in> f ` set xs")
    case True
    then show ?thesis
      unfolding push_back_at_map [OF d] first_keys_snoc k by auto
  next
    case False
    then have "filter (\<lambda>i. f i = f x) xs = []"
      unfolding filter_empty_conv by (metis imageI)
    with False show ?thesis
      unfolding push_back_at_map [OF d] first_keys_snoc k by auto
  qed
  finally show ?case .
qed

lemma itemsForSet_eq:
  "itemsForSet f n =
     map (\<lambda>k. (k, filter (\<lambda>i. f i = k) [0..<n])) (rev (remdups (rev (map f [0..<n]))))"
  unfolding itemsForSet_def by (rule items_closed_form)

lemma aggregate_fold: "foldl (\<lambda>agg i. agg @ cs ! i) a xs = a @ concat (map (nth cs) xs)"
  by (induction xs arbitrary: a) simp_all

lemma aggregate_concat:
  "ms \<noteq> [] \<Longrightarrow> (length ms = 1 \<Longrightarrow> k = hd ms) \<Longrightarrow> aggregate cs (k, ms) = concat (map (nth cs) ms)"
  by (cases ms) (auto simp: aggregate_def aggregate_fold)


subsection \<open>The merged contours\<close>

lemma leaders_represent:
  fixes n :: nat
  assumes eq: "\<And>i j. i < n \<Longrightarrow> j < n \<Longrightarrow> (f i = f j) = ((i, j) \<in> Cl)"
  shows "inj_on f {i. i < n \<and> (\<forall>j < i. (j, i) \<notin> Cl)}"
    and "f ` {i. i < n \<and> (\<forall>j < i. (j, i) \<notin> Cl)} = f ` {0..<n}"
proof -
  let ?L = "{i. i < n \<and> (\<forall>j < i. (j, i) \<notin> Cl)}"
  show "inj_on f ?L"
  proof (rule inj_onI)
    fix a b assume a: "a \<in> ?L" and b: "b \<in> ?L" and ab: "f a = f b"
    from a b have an: "a < n" and bn: "b < n" by simp_all
    from ab eq [OF an bn] have 1: "(a, b) \<in> Cl" by simp
    from ab eq [OF bn an] have 2: "(b, a) \<in> Cl" by simp
    from a 2 have "\<not> b < a" by auto
    moreover from b 1 have "\<not> a < b" by auto
    ultimately show "a = b" by simp
  qed
  show "f ` ?L = f ` {0..<n}"
  proof
    show "f ` ?L \<subseteq> f ` {0..<n}" by auto
    show "f ` {0..<n} \<subseteq> f ` ?L"
    proof
      fix k assume "k \<in> f ` {0..<n}"
      then obtain i where i: "i < n" and k: "k = f i" by auto
      define i0 where "i0 = (LEAST j. f j = f i)"
      have f0: "f i0 = f i" unfolding i0_def by (rule LeastI [of _ i]) simp
      have le: "i0 \<le> i" unfolding i0_def by (rule Least_le) simp
      have least: "f j \<noteq> f i" if "j < i0" for j
        using that not_less_Least unfolding i0_def by blast
      from le i have n0: "i0 < n" by simp
      have "(j, i0) \<notin> Cl" if j: "j < i0" for j
      proof -
        from j n0 have jn: "j < n" by simp
        from least [OF j] f0 have "f j \<noteq> f i0" by simp
        with eq [OF jn n0] show ?thesis by simp
      qed
      with n0 have "i0 \<in> ?L" by simp
      then have "f i0 \<in> f ` ?L" by (rule imageI)
      with f0 k show "k \<in> f ` ?L" by simp
    qed
  qed
qed

lemma merge_classes:
  assumes len: "length contours \<le> length massCenters" "length contours \<le> length boundingBoxes"
    and rep: "represents FindSet (union_pass cf (length contours) massCenters boundingBoxes)"
  shows "\<exists>merged. mergeContours FindSet cf contours massCenters boundingBoxes = Some merged \<and>
     mset merged =
       mset (map (\<lambda>i. concat (map (nth contours)
                (merge_class cf massCenters boundingBoxes (length contours) i)))
           (class_leaders cf massCenters boundingBoxes (length contours)))"
proof -
  define n where "n = length contours"
  define s where "s = union_pass cf n massCenters boundingBoxes"
  define f where "f = FindSet s"
  define Cl where "Cl = (proximity cf massCenters boundingBoxes n)\<^sup>*"
  define K where "K = rev (remdups (rev (map f [0..<n])))"
  define members where "members = (\<lambda>k. filter (\<lambda>i. f i = k) [0..<n])"
  define L where "L = class_leaders cf massCenters boundingBoxes n"
  have r: "f i < n \<and> f (f i) = f i \<and> (\<forall>j < n. (f i = f j) = ((i, j) \<in> Cl))" if "i < n" for i
    using rep that
    unfolding represents_def f_def s_def Cl_def n_def [symmetric]
    by (simp add: linked_union_pass)
  have eq: "(f i = f j) = ((i, j) \<in> Cl)" if "i < n" "j < n" for i j
    using r that by blast
  have K: "distinct K" "set K = f ` {0..<n}" by (simp_all add: K_def)
  have Kn: "k < n" if "k \<in> set K" for k
    using that r unfolding K(2) by auto
  have items: "itemsForSet f n = map (\<lambda>k. (k, members k)) K"
    by (simp add: itemsForSet_eq K_def members_def)
  have inrange: "\<not> list_ex (\<lambda>kv. length (snd kv) = 1 \<and> n \<le> fst kv) (itemsForSet f n)"
    unfolding items list_ex_iff using Kn by (auto simp: not_le)
  have m: "mergeContours FindSet cf contours massCenters boundingBoxes =
      Some (map (\<lambda>k. aggregate contours (k, members k)) K)"
    using len inrange
    unfolding mergeContours_def n_def [symmetric] Let_def s_def [symmetric] f_def [symmetric]
    by (simp add: items o_def)
  have Lset: "set L = {i. i < n \<and> (\<forall>j < i. (j, i) \<notin> Cl)}"
    by (auto simp: L_def class_leaders_def Cl_def)
  have Ld: "distinct L" by (simp add: L_def class_leaders_def)
  from leaders_represent [of n f Cl, OF eq] have inj: "inj_on f (set L)"
    and img: "f ` set L = f ` {0..<n}"
    unfolding Lset by simp_all
  have agg: "aggregate contours (f i, members (f i)) =
      concat (map (nth contours) (merge_class cf massCenters boundingBoxes n i))"
    if i: "i \<in> set L" for i
  proof -
    from i have n: "i < n" by (simp add: Lset)
    have "(f j = f i) = ((i, j) \<in> Cl)" if "j \<in> set [0..<n]" for j
      using eq [OF n, of j] that by auto
    then have mc: "members (f i) = merge_class cf massCenters boundingBoxes n i"
      unfolding members_def merge_class_def Cl_def [symmetric]
      by (intro filter_cong refl)
    have ne: "i \<in> set (members (f i))" using n by (simp add: members_def)
    have fi: "f i \<in> set (members (f i))" using r [OF n] by (simp add: members_def)
    have one: "f i = hd (members (f i))" if "length (members (f i)) = 1"
    proof -
      from that obtain x where x: "members (f i) = [x]"
        by (cases "members (f i)") auto
      with ne fi show ?thesis by simp
    qed
    from ne have "members (f i) \<noteq> []" by auto
    from aggregate_concat [OF this one] show ?thesis by (simp add: mc)
  qed
  have "mset (map (\<lambda>k. aggregate contours (k, members k)) K) =
        image_mset (\<lambda>k. aggregate contours (k, members k)) (mset_set (f ` set L))"
    using K by (simp add: img flip: mset_set_set)
  also have "mset_set (f ` set L) = image_mset f (mset_set (set L))"
    using inj by (simp add: image_mset_mset_set)
  also have "mset_set (set L) = mset L"
    using Ld by (rule mset_set_set)
  also have "image_mset (\<lambda>k. aggregate contours (k, members k)) (image_mset f (mset L)) =
        image_mset (\<lambda>i. concat (map (nth contours) (merge_class cf massCenters boundingBoxes n i))) (mset L)"
    unfolding multiset.map_comp by (rule image_mset_cong) (simp add: agg)
  finally have "mset (map (\<lambda>k. aggregate contours (k, members k)) K) =
      mset (map (\<lambda>i. concat (map (nth contours) (merge_class cf massCenters boundingBoxes n i))) L)"
    by simp
  with m show ?thesis unfolding L_def n_def by simp
qed

subsection \<open>The labelled sets meet the contract\<close>

lemma closure_insert:
  fixes U :: "('a \<times> 'a) set"
  defines "E \<equiv> (U \<union> U\<inverse>)\<^sup>*"
  shows "((i, j) \<in> (insert (a, b) U \<union> (insert (a, b) U)\<inverse>)\<^sup>*) =
     ((i, j) \<in> E \<or> ((i, a) \<in> E \<and> (b, j) \<in> E) \<or> ((i, b) \<in> E \<and> (a, j) \<in> E))"
proof
  have sym: "(x, y) \<in> E \<Longrightarrow> (y, x) \<in> E" for x y
    unfolding E_def by (metis converse_Un converse_converse rtrancl_converseD sup_commute)
  have trans: "(x, y) \<in> E \<Longrightarrow> (y, z) \<in> E \<Longrightarrow> (x, z) \<in> E" for x y z
    unfolding E_def by (rule rtrancl_trans)
  have refl: "(x, x) \<in> E" for x unfolding E_def by simp
  have base: "(x, y) \<in> U \<union> U\<inverse> \<Longrightarrow> (x, y) \<in> E" for x y
    unfolding E_def by (rule r_into_rtrancl)
  let ?R = "(i, j) \<in> E \<or> ((i, a) \<in> E \<and> (b, j) \<in> E) \<or> ((i, b) \<in> E \<and> (a, j) \<in> E)"
  {
    assume "(i, j) \<in> (insert (a, b) U \<union> (insert (a, b) U)\<inverse>)\<^sup>*"
    then show ?R
    proof (induction rule: rtrancl_induct)
      case base
      show ?case using refl by simp
    next
      case (step y z)
      from step.hyps(2) consider "(y, z) \<in> U \<union> U\<inverse>" | "y = a" "z = b" | "y = b" "z = a"
        by auto
      then show ?case
      proof cases
        case 1
        from base [OF this] step.IH show ?thesis by (meson trans)
      next
        case 2
        with step.IH show ?thesis by (meson trans sym refl)
      next
        case 3
        with step.IH show ?thesis by (meson trans sym refl)
      qed
    qed
  }
  {
    let ?E' = "(insert (a, b) U \<union> (insert (a, b) U)\<inverse>)\<^sup>*"
    have sub: "(x, y) \<in> E \<Longrightarrow> (x, y) \<in> ?E'" for x y
      unfolding E_def by (rule rtrancl_mono [THEN subsetD, rotated]) auto
    have ab: "(a, b) \<in> ?E'" and ba: "(b, a) \<in> ?E'" by auto
    assume ?R
    then show "(i, j) \<in> ?E'"
      using sub ab ba by (meson rtrancl_trans)
  }
qed

lemma relabel_nth:
  "i < length ls \<Longrightarrow> relabel ls (a, b) ! i = (if ls ! i = ls ! a then ls ! b else ls ! i)"
  by (simp add: relabel_def)

lemma labels_invariant:
  assumes "\<forall>u \<in> set us. fst u < n \<and> snd u < n"
  shows "length (foldl relabel [0..<n] us) = n \<and>
     (\<forall>i < n. foldl relabel [0..<n] us ! i < n \<and>
        foldl relabel [0..<n] us ! (foldl relabel [0..<n] us ! i) = foldl relabel [0..<n] us ! i \<and>
        (\<forall>j < n. (foldl relabel [0..<n] us ! i = foldl relabel [0..<n] us ! j) =
                 ((i, j) \<in> (set us \<union> (set us)\<inverse>)\<^sup>*)))"
  using assms
proof (induction us rule: rev_induct)
  case Nil
  show ?case by auto
next
  case (snoc u us)
  obtain a b where u: "u = (a, b)" by (cases u)
  define ls where "ls = foldl relabel [0..<n] us"
  define E where "E = (set us \<union> (set us)\<inverse>)\<^sup>*"
  from snoc.prems have an: "a < n" and bn: "b < n" and rest: "\<forall>u \<in> set us. fst u < n \<and> snd u < n"
    by (simp_all add: u)
  from snoc.IH [OF rest] have len: "length ls = n"
    and bound: "\<And>i. i < n \<Longrightarrow> ls ! i < n"
    and idem: "\<And>i. i < n \<Longrightarrow> ls ! (ls ! i) = ls ! i"
    and eq: "\<And>i j. i < n \<Longrightarrow> j < n \<Longrightarrow> (ls ! i = ls ! j) = ((i, j) \<in> E)"
    unfolding ls_def E_def by simp_all
  have new: "foldl relabel [0..<n] (us @ [u]) = relabel ls (a, b)"
    by (simp add: ls_def u)
  have nth: "relabel ls (a, b) ! i = (if ls ! i = ls ! a then ls ! b else ls ! i)" if "i < n" for i
    using that by (simp add: relabel_nth len)
  have sym: "(x, y) \<in> E \<Longrightarrow> (y, x) \<in> E" for x y
    unfolding E_def by (metis converse_Un converse_converse rtrancl_converseD sup_commute)
  have E': "((i, j) \<in> (set (us @ [u]) \<union> (set (us @ [u]))\<inverse>)\<^sup>*) =
      ((i, j) \<in> E \<or> ((i, a) \<in> E \<and> (b, j) \<in> E) \<or> ((i, b) \<in> E \<and> (a, j) \<in> E))" for i j
    using closure_insert [of i j a b "set us"] by (simp add: u E_def)
  have "relabel ls (a, b) ! i < n \<and>
        relabel ls (a, b) ! (relabel ls (a, b) ! i) = relabel ls (a, b) ! i \<and>
        (\<forall>j < n. (relabel ls (a, b) ! i = relabel ls (a, b) ! j) =
                 ((i, j) \<in> (set (us @ [u]) \<union> (set (us @ [u]))\<inverse>)\<^sup>*))" if i: "i < n" for i
  proof (intro conjI allI impI)
    show "relabel ls (a, b) ! i < n" using bound i bn by (simp add: nth)
    show "relabel ls (a, b) ! (relabel ls (a, b) ! i) = relabel ls (a, b) ! i"
      using bound [OF i] bound [OF bn] idem [OF i] idem [OF bn] i bn
      by (simp add: nth)
    fix j assume j: "j < n"
    have "(relabel ls (a, b) ! i = relabel ls (a, b) ! j) =
        (ls ! i = ls ! j \<or> (ls ! i = ls ! a \<and> ls ! j = ls ! b) \<or> (ls ! i = ls ! b \<and> ls ! j = ls ! a))"
      using i j by (auto simp: nth)
    also have "\<dots> = ((i, j) \<in> E \<or> ((i, a) \<in> E \<and> (b, j) \<in> E) \<or> ((i, b) \<in> E \<and> (a, j) \<in> E))"
      using eq [OF i j] eq [OF i an] eq [OF j bn] eq [OF i bn] eq [OF j an] sym by blast
    finally show "(relabel ls (a, b) ! i = relabel ls (a, b) ! j) =
        ((i, j) \<in> (set (us @ [u]) \<union> (set (us @ [u]))\<inverse>)\<^sup>*)"
      by (simp only: E')
  qed
  moreover have "length (relabel ls (a, b)) = n" by (simp add: relabel_def len)
  ultimately show ?case unfolding new by blast
qed

lemma FindSet0_represents:
  "\<forall>u \<in> set (unions s). fst u < numElements s \<and> snd u < numElements s \<Longrightarrow> represents FindSet0 s"
  using labels_invariant [of "unions s" "numElements s"]
  unfolding represents_def FindSet0_def linked_def by simp

lemma FindSet0_union_pass: "represents FindSet0 (union_pass cf n massCenters boundingBoxes)"
  by (rule FindSet0_represents) (auto simp: union_pass_unions proximity_def)

subsection \<open>Classes of size one, and the second geometry pass\<close>

lemma closure_sym:
  "(i, j) \<in> (proximity cf massCenters boundingBoxes n)\<^sup>* \<Longrightarrow>
   (j, i) \<in> (proximity cf massCenters boundingBoxes n)\<^sup>*"
  using rtrancl_converseI [of i j "proximity cf massCenters boundingBoxes n"]
  by (simp add: proximity_sym)

lemma singleton_class_leader:
  assumes "i < n" and "merge_class cf massCenters boundingBoxes n i = [i]"
  shows "i \<in> set (class_leaders cf massCenters boundingBoxes n)"
proof -
  have "(j, i) \<notin> (proximity cf massCenters boundingBoxes n)\<^sup>*" if j: "j < i" for j
  proof
    assume "(j, i) \<in> (proximity cf massCenters boundingBoxes n)\<^sup>*"
    then have "(i, j) \<in> (proximity cf massCenters boundingBoxes n)\<^sup>*" by (rule closure_sym)
    with j assms(1) have "j \<in> set (merge_class cf massCenters boundingBoxes n i)"
      by (simp add: merge_class_def)
    with assms(2) j show False by simp
  qed
  with assms(1) show ?thesis by (simp add: class_leaders_def)
qed

lemma findContours_eq:
  "findContours cv FindSet cf extracted =
     (case filterOutBadContours cv cf extracted of
        None \<Rightarrow> None
      | Some contours \<Rightarrow>
          (case mergeContours FindSet cf contours
                  (map (massCenter cv) contours) (map (boundingBox cv) contours) of
             None \<Rightarrow> None
           | Some merged \<Rightarrow>
               Some (merged, map (massCenter cv) merged, map (boundingBox cv) merged)))"
  by (simp add: findContours_def centers_map split: option.splits)

text \<open>
  C7. Let \<open>FindSet\<close> meet the contract of the disjoint sets after the \<open>Union\<close> calls
  of the merge pass, and let there be a centroid and a box for every contour. Then the
  merge returns, as a multiset, one contour for every class of the proximity relation
  closed under transitivity: the point sequences of the members of the class, in rising
  order of their indices, one behind the other. For a class of one member that is its
  contour unchanged, which is therefore among the merged ones. In \<open>findContours\<close> the
  centroids and boxes returned are those computed anew from the merged contours.
\<close>

theorem merge_concatenates_classes:
  assumes "length contours \<le> length massCenters"
    and "length contours \<le> length boundingBoxes"
    and "represents FindSet (union_pass cf (length contours) massCenters boundingBoxes)"
  shows "\<exists>merged. mergeContours FindSet cf contours massCenters boundingBoxes = Some merged \<and>
     mset merged =
       mset (map (\<lambda>i. concat (map (nth contours)
                (merge_class cf massCenters boundingBoxes (length contours) i)))
           (class_leaders cf massCenters boundingBoxes (length contours))) \<and>
     (\<forall>i < length contours.
        merge_class cf massCenters boundingBoxes (length contours) i = [i] \<longrightarrow>
        contours ! i \<in> set merged) \<and>
     (filterOutBadContours cv cf extracted = Some contours \<and>
      getCentersAndBoundingBoxes cv contours = (massCenters, boundingBoxes) \<longrightarrow>
        findContours cv FindSet cf extracted =
          Some (merged, fst (getCentersAndBoundingBoxes cv merged),
                snd (getCentersAndBoundingBoxes cv merged)))"
proof -
  let ?n = "length contours"
  let ?piece = "\<lambda>i. concat (map (nth contours) (merge_class cf massCenters boundingBoxes ?n i))"
  let ?L = "class_leaders cf massCenters boundingBoxes ?n"
  from merge_classes [OF assms] obtain merged where
    m: "mergeContours FindSet cf contours massCenters boundingBoxes = Some merged" and
    ms: "mset merged = mset (map ?piece ?L)"
    by blast
  have single: "contours ! i \<in> set merged"
    if i: "i < ?n" and c: "merge_class cf massCenters boundingBoxes ?n i = [i]" for i
  proof -
    from singleton_class_leader [OF i c] have "?piece i \<in> set (map ?piece ?L)" by simp
    then have "contours ! i \<in> set (map ?piece ?L)" by (simp add: c)
    also have "set (map ?piece ?L) = set merged" using ms by (metis set_mset_mset)
    finally show ?thesis .
  qed
  have pipeline: "findContours cv FindSet cf extracted =
          Some (merged, fst (getCentersAndBoundingBoxes cv merged),
                snd (getCentersAndBoundingBoxes cv merged))"
    if "filterOutBadContours cv cf extracted = Some contours"
      and "getCentersAndBoundingBoxes cv contours = (massCenters, boundingBoxes)"
    using that m by (simp add: findContours_def)
  from m ms single pipeline show ?thesis by blast
qed

lemma blob_areas: "contourArea cv0 blob_a = 1600" "contourArea cv0 blob_b = 1600" "contourArea cv0 blob_c = 1600"
  by (simp_all add: cv0_def cv_contourArea_def blob_a_def blob_b_def blob_c_def)

lemma blob_filter:
  "filterOutBadContours cv0 cf0 [blob_a, blob_b, blob_c] = Some [blob_a, blob_b, blob_c]"
  by (simp add: filterOutBadContours_def threshold_eq blob_areas cf0_def to_int_range)

subsection \<open>Two near squares and a far one\<close>

lemma upt3: "[0..<3] = [0, 1, 2]"
  by (simp add: upt_rec)

lemma blob_geometry:
  "getCentersAndBoundingBoxes cv0 [blob_a, blob_b, blob_c] =
     ([(Finite 100, Finite 100), (Finite 110, Finite 100), (Finite 320, Finite 320)],
      [\<lparr>rect_x = 80, rect_y = 80, rect_width = 41, rect_height = 41\<rparr>,
       \<lparr>rect_x = 90, rect_y = 80, rect_width = 41, rect_height = 41\<rparr>,
       \<lparr>rect_x = 300, rect_y = 300, rect_width = 41, rect_height = 41\<rparr>])"
  by (simp add: massCenter_def cv0_def cv_moments_def cv_boundingRect_def
      blob_a_def blob_b_def blob_c_def fdiv_def)

lemma blob_near: "cv_norm (100, 100) (110, 100) < 41 / 2" "cv_norm (110, 100) (100, 100) < 41 / 2"
  by (rule cv_norm_lt_gate; simp)+

lemma blob_far:
  "\<not> cv_norm (100, 100) (320, 320) < 41 / 2" "\<not> cv_norm (320, 320) (100, 100) < 41 / 2"
  "\<not> cv_norm (110, 100) (320, 320) < 41 / 2" "\<not> cv_norm (320, 320) (110, 100) < 41 / 2"
  unfolding not_less by (rule less_imp_le, rule gate_lt_cv_norm; simp)+

lemma blob_gates:
  "cv_norm (100, 100) (110, 100) * 2 < 41" "cv_norm (110, 100) (100, 100) * 2 < 41"
  "\<not> cv_norm (100, 100) (320, 320) * 2 < 41" "\<not> cv_norm (320, 320) (100, 100) * 2 < 41"
  "\<not> cv_norm (110, 100) (320, 320) * 2 < 41" "\<not> cv_norm (320, 320) (110, 100) * 2 < 41"
  using blob_near blob_far by simp_all

lemma blob_unions:
  "union_pass cf0 3
     [(Finite 100, Finite 100), (Finite 110, Finite 100), (Finite 320, Finite 320)]
     [\<lparr>rect_x = 80, rect_y = 80, rect_width = 41, rect_height = 41\<rparr>,
      \<lparr>rect_x = 90, rect_y = 80, rect_width = 41, rect_height = 41\<rparr>,
      \<lparr>rect_x = 300, rect_y = 300, rect_width = 41, rect_height = 41\<rparr>] =
   \<lparr>numElements = 3, unions = [(0, 1), (1, 0)]\<rparr>"
  by (simp add: union_pass_def upt3 mergeable_def dimension_def cf0_def blob_gates
      DisjointSets_def Union_sets_def)

lemma blob_merge:
  "mergeContours FindSet0 cf0 [blob_a, blob_b, blob_c]
     [(Finite 100, Finite 100), (Finite 110, Finite 100), (Finite 320, Finite 320)]
     [\<lparr>rect_x = 80, rect_y = 80, rect_width = 41, rect_height = 41\<rparr>,
      \<lparr>rect_x = 90, rect_y = 80, rect_width = 41, rect_height = 41\<rparr>,
      \<lparr>rect_x = 300, rect_y = 300, rect_width = 41, rect_height = 41\<rparr>] =
   Some [blob_a @ blob_b, blob_c]"
  by (simp add: mergeContours_def blob_unions [unfolded numeral_3_eq_3] itemsForSet_def
      FindSet0_def relabel_def aggregate_def Let_def)

lemma merged_geometry:
  "getCentersAndBoundingBoxes cv0 [blob_a @ blob_b, blob_c] =
     ([(Finite (2525 / 24), Finite 100), (Finite 320, Finite 320)],
      [\<lparr>rect_x = 80, rect_y = 80, rect_width = 51, rect_height = 41\<rparr>,
       \<lparr>rect_x = 300, rect_y = 300, rect_width = 41, rect_height = 41\<rparr>])"
  by (simp add: massCenter_def cv0_def cv_moments_def cv_boundingRect_def
      blob_a_def blob_b_def blob_c_def fdiv_def)

theorem merge_concatenates_classes_witness:
  "represents FindSet0
     (union_pass cf0 (length [blob_a, blob_b, blob_c])
        (fst (getCentersAndBoundingBoxes cv0 [blob_a, blob_b, blob_c]))
        (snd (getCentersAndBoundingBoxes cv0 [blob_a, blob_b, blob_c]))) \<and>
   mergeContours FindSet0 cf0 [blob_a, blob_b, blob_c]
     (fst (getCentersAndBoundingBoxes cv0 [blob_a, blob_b, blob_c]))
     (snd (getCentersAndBoundingBoxes cv0 [blob_a, blob_b, blob_c])) =
     Some [blob_a @ blob_b, blob_c] \<and>
   mset (map (\<lambda>i. concat (map (nth [blob_a, blob_b, blob_c])
            (merge_class cf0 (fst (getCentersAndBoundingBoxes cv0 [blob_a, blob_b, blob_c]))
               (snd (getCentersAndBoundingBoxes cv0 [blob_a, blob_b, blob_c])) 3 i)))
         (class_leaders cf0 (fst (getCentersAndBoundingBoxes cv0 [blob_a, blob_b, blob_c]))
            (snd (getCentersAndBoundingBoxes cv0 [blob_a, blob_b, blob_c])) 3)) =
     {#blob_a @ blob_b, blob_c#} \<and>
   findContours cv0 FindSet0 cf0 [blob_a, blob_b, blob_c] =
     Some ([blob_a @ blob_b, blob_c],
           [(Finite (2525 / 24), Finite 100), (Finite 320, Finite 320)],
           [\<lparr>rect_x = 80, rect_y = 80, rect_width = 51, rect_height = 41\<rparr>,
            \<lparr>rect_x = 300, rect_y = 300, rect_width = 41, rect_height = 41\<rparr>])"
proof -
  let ?cs = "[blob_a, blob_b, blob_c]"
  let ?mc = "fst (getCentersAndBoundingBoxes cv0 ?cs)"
  let ?bb = "snd (getCentersAndBoundingBoxes cv0 ?cs)"
  have l1: "length ?cs \<le> length ?mc" and l2: "length ?cs \<le> length ?bb"
    by (simp_all add: centers_map)
  have r: "represents FindSet0 (union_pass cf0 (length ?cs) ?mc ?bb)"
    by (rule FindSet0_union_pass)
  have e: "mergeContours FindSet0 cf0 ?cs ?mc ?bb = Some [blob_a @ blob_b, blob_c]"
    by (simp only: blob_geometry fst_conv snd_conv blob_merge)
  have f: "filterOutBadContours cv0 cf0 ?cs = Some ?cs" by (rule blob_filter)
  have g: "getCentersAndBoundingBoxes cv0 ?cs = (?mc, ?bb)" by simp
  have n: "length ?cs = 3" by simp
  from merge_concatenates_classes [OF l1 l2 r, of cv0 ?cs] f g obtain merged where
    m: "mergeContours FindSet0 cf0 ?cs ?mc ?bb = Some merged" and
    ms: "mset merged =
       mset (map (\<lambda>i. concat (map (nth ?cs) (merge_class cf0 ?mc ?bb (length ?cs) i)))
           (class_leaders cf0 ?mc ?bb (length ?cs)))" and
    p: "findContours cv0 FindSet0 cf0 ?cs =
          Some (merged, fst (getCentersAndBoundingBoxes cv0 merged),
                snd (getCentersAndBoundingBoxes cv0 merged))"
    by blast
  from m e have merged: "merged = [blob_a @ blob_b, blob_c]" by simp
  from ms have "mset (map (\<lambda>i. concat (map (nth ?cs) (merge_class cf0 ?mc ?bb 3 i)))
           (class_leaders cf0 ?mc ?bb 3)) = {#blob_a @ blob_b, blob_c#}"
    unfolding merged n by simp
  moreover from p have "findContours cv0 FindSet0 cf0 ?cs =
     Some ([blob_a @ blob_b, blob_c],
           [(Finite (2525 / 24), Finite 100), (Finite 320, Finite 320)],
           [\<lparr>rect_x = 80, rect_y = 80, rect_width = 51, rect_height = 41\<rparr>,
            \<lparr>rect_x = 300, rect_y = 300, rect_width = 41, rect_height = 41\<rparr>])"
    unfolding merged merged_geometry by simp
  ultimately show ?thesis using r e by blast
qed

end
